theory Spec2Isabelle
  imports Complex_Main
begin

section \<open>Python strings\<close>

text \<open>
  A document is a Python \<^verbatim>\<open>str\<close>. It is modelled as a \<^typ>\<open>string\<close> whose characters
  are the code points below 256 (ASCII and Latin-1), so \<^term>\<open>length\<close> is Python's
  \<^verbatim>\<open>len\<close>. The character predicates below are Python's on that range.
\<close>

definition code :: "char \<Rightarrow> int" where
  "code c = of_char c"

text \<open>\<^verbatim>\<open>str.isspace\<close>, which is also the regular expression class \<^verbatim>\<open>\s\<close> of a
  \<^verbatim>\<open>str\<close> pattern: TAB to CR, FS to US, space, NEL and the no-break space.\<close>

definition py_isspace :: "char \<Rightarrow> bool" where
  "py_isspace c = (let n = code c in
     (9 \<le> n \<and> n \<le> 13) \<or> (28 \<le> n \<and> n \<le> 32) \<or> n = 133 \<or> n = 160)"

text \<open>The class \<^verbatim>\<open>\d\<close> and the digits \<^verbatim>\<open>int\<close> accepts: decimal digits only.\<close>

definition is_decimal :: "char \<Rightarrow> bool" where
  "is_decimal c = (let n = code c in 48 \<le> n \<and> n \<le> 57)"

text \<open>\<^verbatim>\<open>str.isdigit\<close> of one character: the decimal digits and the superscripts
  two, three and one.\<close>

definition isdigit_char :: "char \<Rightarrow> bool" where
  "isdigit_char c = (is_decimal c \<or> code c = 178 \<or> code c = 179 \<or> code c = 185)"

definition py_isdigit :: "string \<Rightarrow> bool" where
  "py_isdigit s = (s \<noteq> [] \<and> list_all isdigit_char s)"

text \<open>Case mapping of one character. Upper-case letters are A to Z and the Latin-1 capitals
  (192 to 222 but the multiplication sign 215); each is 32 below its lower-case letter.
  The micro sign and the y with diaeresis have their capitals above 255; no class or
  literal of the program contains them, and \<open>to_upper\<close> leaves them alone.\<close>

definition is_upper :: "char \<Rightarrow> bool" where
  "is_upper c = (let n = code c in (65 \<le> n \<and> n \<le> 90) \<or> (192 \<le> n \<and> n \<le> 222 \<and> n \<noteq> 215))"

definition is_lower :: "char \<Rightarrow> bool" where
  "is_lower c = (let n = code c in (97 \<le> n \<and> n \<le> 122) \<or> (224 \<le> n \<and> n \<le> 254 \<and> n \<noteq> 247))"

definition to_lower :: "char \<Rightarrow> char" where
  "to_lower c = (if is_upper c then char_of (code c + 32) else c)"

definition to_upper :: "char \<Rightarrow> char" where
  "to_upper c = (if is_lower c then char_of (code c - 32) else c)"

definition py_lower :: "string \<Rightarrow> string" where
  "py_lower s = map to_lower s"

text \<open>\<^verbatim>\<open>needle in s\<close>.\<close>

fun contains :: "string \<Rightarrow> string \<Rightarrow> bool" where
  "contains needle [] = (needle = [])"
| "contains needle (c # s) = (take (length needle) (c # s) = needle \<or> contains needle s)"

definition startswith :: "string \<Rightarrow> string \<Rightarrow> bool" where
  "startswith s p = (take (length p) s = p)"

text \<open>\<^verbatim>\<open>s.replace(old, new)\<close> for a one-character \<open>old\<close>.\<close>

definition replace_char :: "char \<Rightarrow> string \<Rightarrow> string \<Rightarrow> string" where
  "replace_char old new s = concat (map (\<lambda>c. if c = old then new else [c]) s)"

definition strip_by :: "(char \<Rightarrow> bool) \<Rightarrow> string \<Rightarrow> string" where
  "strip_by sp s = rev (dropWhile sp (rev (dropWhile sp s)))"

text \<open>\<^verbatim>\<open>s.strip()\<close>\<close>

definition py_strip :: "string \<Rightarrow> string" where
  "py_strip s = strip_by py_isspace s"

section \<open>Regular expressions\<close>

text \<open>
  The patterns of the program, as syntax trees, and Python's backtracking matcher for
  them. Only the constructs the program uses are present: literals, classes,
  \<^verbatim>\<open>\d\<close>, \<^verbatim>\<open>\s\<close>, the dot, sequence, alternation, the greedy
  \<^verbatim>\<open>?\<close>, \<^verbatim>\<open>*\<close>, \<^verbatim>\<open>+\<close> and \<^verbatim>\<open>{m,n}\<close>, and numbered
  capturing groups. There are no anchors and no look-around, so whether a pattern matches
  at a position depends on the text from that position on only.

  The second-language spellings in the source (rank names, labels) each begin with a code
  point above 255. A document of this model has no such character, so such a literal
  matches nowhere; it is written \<open>NonLatin1\<close>, once for the whole word.
\<close>

datatype citem = CChar char | CRange char char | CSpace | CDigit

datatype regex =
    Lit char
  | NonLatin1
  | Cls "citem list"
  | NCls "citem list"
  | Digit
  | Space
  | AnyChar
  | Eps
  | Seq regex regex
  | Alt regex regex
  | Opt regex
  | Star regex
  | Grp nat regex

record flags =
  ignorecase :: bool
  dotall :: bool

definition no_flags :: flags where
  "no_flags = \<lparr>ignorecase = False, dotall = False\<rparr>"

definition IGNORECASE :: flags where
  "IGNORECASE = \<lparr>ignorecase = True, dotall = False\<rparr>"

definition DOTALL :: flags where
  "DOTALL = \<lparr>ignorecase = False, dotall = True\<rparr>"

fun in_item :: "citem \<Rightarrow> char \<Rightarrow> bool" where
  "in_item (CChar x) c = (c = x)"
| "in_item (CRange lo hi) c = (code lo \<le> code c \<and> code c \<le> code hi)"
| "in_item CSpace c = py_isspace c"
| "in_item CDigit c = is_decimal c"

definition in_items :: "citem list \<Rightarrow> char \<Rightarrow> bool" where
  "in_items its c = list_ex (\<lambda>i. in_item i c) its"

text \<open>With \<^verbatim>\<open>re.IGNORECASE\<close> a literal matches a character with the same lower-case
  form, and a set is tried on the lower-case and on the upper-case form of the character.\<close>

definition lit_ok :: "flags \<Rightarrow> char \<Rightarrow> char \<Rightarrow> bool" where
  "lit_ok f p c = (if ignorecase f then to_lower c = to_lower p else c = p)"

definition cls_ok :: "flags \<Rightarrow> citem list \<Rightarrow> char \<Rightarrow> bool" where
  "cls_ok f its c =
     (if ignorecase f then in_items its (to_lower c) \<or> in_items its (to_upper c)
      else in_items its c)"

text \<open>Without \<^verbatim>\<open>re.DOTALL\<close> the dot matches any character but the newline.\<close>

definition dot_ok :: "flags \<Rightarrow> char \<Rightarrow> bool" where
  "dot_ok f c = (dotall f \<or> c \<noteq> CHR 0x0A)"

text \<open>
  A matcher state is the groups closed so far (latest first) and the text still to read.
  \<open>ms f r\<close> gives every way \<open>r\<close> can match at the head of the text, in the order in which
  the backtracking matcher tries them: the head of the list is the match it reports.
\<close>

type_synonym mstate = "(nat \<times> string) list \<times> string"

definition one_char :: "(char \<Rightarrow> bool) \<Rightarrow> mstate \<Rightarrow> mstate list" where
  "one_char ok x = (case snd x of [] \<Rightarrow> [] | c # t \<Rightarrow> if ok c then [(fst x, t)] else [])"

text \<open>Greedy repetition: one more round first, stopping last. \<open>n\<close> bounds the rounds; a
  round that reads nothing is not repeated.\<close>

primrec star :: "(mstate \<Rightarrow> mstate list) \<Rightarrow> nat \<Rightarrow> mstate \<Rightarrow> mstate list" where
  "star m 0 x = [x]"
| "star m (Suc n) x =
     concat (map (\<lambda>y. if length (snd y) < length (snd x) then star m n y else []) (m x)) @ [x]"

definition close_group :: "nat \<Rightarrow> string \<Rightarrow> mstate \<Rightarrow> mstate" where
  "close_group k s y = ((k, take (length s - length (snd y)) s) # fst y, snd y)"

primrec ms :: "flags \<Rightarrow> regex \<Rightarrow> mstate \<Rightarrow> mstate list" where
  "ms f (Lit p) x = one_char (lit_ok f p) x"
| "ms f NonLatin1 x = []"
| "ms f (Cls its) x = one_char (cls_ok f its) x"
| "ms f (NCls its) x = one_char (\<lambda>c. \<not> cls_ok f its c) x"
| "ms f Digit x = one_char is_decimal x"
| "ms f Space x = one_char py_isspace x"
| "ms f AnyChar x = one_char (dot_ok f) x"
| "ms f Eps x = [x]"
| "ms f (Seq a b) x = concat (map (ms f b) (ms f a x))"
| "ms f (Alt a b) x = ms f a x @ ms f b x"
| "ms f (Opt a) x = ms f a x @ [x]"
| "ms f (Star a) x = star (ms f a) (length (snd x)) x"
| "ms f (Grp k a) x = map (close_group k (snd x)) (ms f a x)"

text \<open>Pattern syntax that abbreviates the constructors.\<close>

definition lit :: "string \<Rightarrow> regex" where
  "lit s = foldr (\<lambda>c r. Seq (Lit c) r) s Eps"

fun seqs :: "regex list \<Rightarrow> regex" where
  "seqs [] = Eps"
| "seqs [r] = r"
| "seqs (r # rs) = Seq r (seqs rs)"

fun alts :: "regex list \<Rightarrow> regex" where
  "alts [] = NonLatin1"
| "alts [r] = r"
| "alts (r # rs) = Alt r (alts rs)"

definition Plus :: "regex \<Rightarrow> regex" where
  "Plus r = Seq r (Star r)"

text \<open>\<^verbatim>\<open>r{m}\<close> and the greedy \<^verbatim>\<open>r{m,n}\<close>.\<close>

primrec times :: "nat \<Rightarrow> regex \<Rightarrow> regex" where
  "times 0 r = Eps"
| "times (Suc n) r = Seq r (times n r)"

primrec upto_times :: "nat \<Rightarrow> regex \<Rightarrow> regex" where
  "upto_times 0 r = Eps"
| "upto_times (Suc n) r = Opt (Seq r (upto_times n r))"

definition Rep :: "nat \<Rightarrow> nat \<Rightarrow> regex \<Rightarrow> regex" where
  "Rep m n r = Seq (times m r) (upto_times (n - m) r)"

subsection \<open>Match objects, \<^verbatim>\<open>re.search\<close> and \<^verbatim>\<open>re.findall\<close>\<close>

record rmatch =
  m_groups :: "(nat \<times> string) list"
  m_text :: string
  m_rest :: string

definition mk_match :: "string \<Rightarrow> mstate \<Rightarrow> rmatch" where
  "mk_match s y = \<lparr>m_groups = fst y, m_text = take (length s - length (snd y)) s, m_rest = snd y\<rparr>"

text \<open>\<^verbatim>\<open>m.group(k)\<close>. Every group of the program's patterns takes part in every match of
  its pattern; a group that did not would read as the empty text here.\<close>

definition m_group :: "rmatch \<Rightarrow> nat \<Rightarrow> string" where
  "m_group m k = (case map_of (m_groups m) k of Some t \<Rightarrow> t | None \<Rightarrow> [])"

text \<open>\<^verbatim>\<open>re.search(r, s, flags)\<close>: the first position from the left where \<open>r\<close> matches, with
  the match the backtracking order prefers there. The position after the last character
  is tried too.\<close>

fun re_search :: "flags \<Rightarrow> regex \<Rightarrow> string \<Rightarrow> rmatch option" where
  "re_search f r [] = (case ms f r ([], []) of [] \<Rightarrow> None | y # _ \<Rightarrow> Some (mk_match [] y))"
| "re_search f r (c # s) =
     (case ms f r ([], c # s) of [] \<Rightarrow> re_search f r s | y # _ \<Rightarrow> Some (mk_match (c # s) y))"

definition matches :: "flags \<Rightarrow> regex \<Rightarrow> string \<Rightarrow> bool" where
  "matches f r s = (re_search f r s \<noteq> None)"

text \<open>\<^verbatim>\<open>re.findall\<close> scans for matches that do not overlap. After an empty match the
  next one at the same position must read something (\<open>adv\<close>).\<close>

function scan :: "flags \<Rightarrow> regex \<Rightarrow> bool \<Rightarrow> string \<Rightarrow> rmatch list" where
  "scan f r adv s =
     (case find (\<lambda>y. \<not> adv \<or> length (snd y) < length s) (ms f r ([], s)) of
        Some y \<Rightarrow>
          mk_match s y #
            (if length (snd y) < length s then scan f r False (snd y)
             else if \<not> adv then scan f r True s else [])
      | None \<Rightarrow> (case s of [] \<Rightarrow> [] | _ # t \<Rightarrow> scan f r False t))"
  by pat_completeness auto
termination
  by (relation "measure (\<lambda>(f, r, adv, s). 2 * length s + (if adv then 0 else 1))") auto

text \<open>With one group in the pattern \<^verbatim>\<open>re.findall\<close> returns the texts of that group, with
  none the texts of the whole matches.\<close>

definition findall_group :: "flags \<Rightarrow> regex \<Rightarrow> string \<Rightarrow> string list" where
  "findall_group f r s = map (\<lambda>m. m_group m 1) (scan f r False s)"

definition findall_text :: "flags \<Rightarrow> regex \<Rightarrow> string \<Rightarrow> string list" where
  "findall_text f r s = map m_text (scan f r False s)"

section \<open>Python numbers\<close>

text \<open>
  A failing operation raises; it is modelled as the value \<open>None\<close>. \<open>py_int\<close> is
  \<^verbatim>\<open>int(s)\<close> in base ten: white space around the number is dropped (the
  separators FS to US are not white space for \<^verbatim>\<open>int\<close>), a sign may come first,
  and single underscores may stand between digits; anything else is a
  \<^verbatim>\<open>ValueError\<close>. (The interpreter's optional limit on the number of digits is not
  modelled.)
\<close>

definition int_space :: "char \<Rightarrow> bool" where
  "int_space c = (let n = code c in (9 \<le> n \<and> n \<le> 13) \<or> n = 32 \<or> n = 133 \<or> n = 160)"

fun digit_groups :: "string \<Rightarrow> bool" where
  "digit_groups [] = False"
| "digit_groups [c] = is_decimal c"
| "digit_groups (c # d # s) =
     (is_decimal c \<and> (if d = CHR ''_'' then digit_groups s else digit_groups (d # s)))"

definition digit_val :: "char \<Rightarrow> int" where
  "digit_val c = code c - 48"

definition dec_value :: "string \<Rightarrow> int" where
  "dec_value s = foldl (\<lambda>a c. 10 * a + digit_val c) 0 (filter (\<lambda>c. c \<noteq> CHR ''_'') s)"

definition py_int :: "string \<Rightarrow> int option" where
  "py_int s =
     (case strip_by int_space s of
        [] \<Rightarrow> None
      | c # r \<Rightarrow>
          if c = CHR ''-'' then (if digit_groups r then Some (- dec_value r) else None)
          else if c = CHR ''+'' then (if digit_groups r then Some (dec_value r) else None)
          else if digit_groups (c # r) then Some (dec_value (c # r)) else None)"

text \<open>\<^verbatim>\<open>str(i)\<close> of an integer.\<close>

definition digit_char :: "nat \<Rightarrow> char" where
  "digit_char n = ''0123456789'' ! n"

fun show_nat :: "nat \<Rightarrow> string" where
  "show_nat n = (if n < 10 then [digit_char n] else show_nat (n div 10) @ [digit_char (n mod 10)])"

definition py_str :: "int \<Rightarrow> string" where
  "py_str i = (if i < 0 then CHR ''-'' # show_nat (nat (- i)) else show_nat (nat i))"

text \<open>
  \<^verbatim>\<open>a / b\<close> of two integers is the double nearest to the quotient (ties to the even
  mantissa). A double is kept here as its sign, a mantissa below \<open>2 ^ 53\<close> and an exponent
  of at least \<open>-1074\<close>; its value is \<open>mantissa * 2 ^ exponent\<close>. A quotient that rounds to
  \<open>2 ^ 1024\<close> or more raises \<^verbatim>\<open>OverflowError\<close>, a zero divisor
  \<^verbatim>\<open>ZeroDivisionError\<close>.
\<close>

datatype pyfloat = Float bool int int

text \<open>\<open>rne a b\<close> is \<open>a / b\<close> rounded to the nearest integer, ties to even, for a
  natural \<open>a\<close> and a positive \<open>b\<close>.\<close>

definition rne :: "int \<Rightarrow> int \<Rightarrow> int" where
  "rne a b =
     (let q = a div b; r = a mod b
      in if 2 * r < b then q else if b < 2 * r then q + 1 else if even q then q else q + 1)"

text \<open>\<open>scaled a b e\<close> is \<open>a / (b * 2 ^ e)\<close> rounded, for an exponent of either sign.\<close>

definition scaled :: "int \<Rightarrow> int \<Rightarrow> int \<Rightarrow> int" where
  "scaled a b e = (if 0 \<le> e then rne a (b * 2 ^ nat e) else rne (a * 2 ^ nat (- e)) b)"

text \<open>The number of binary digits of a natural number.\<close>

function bits :: "int \<Rightarrow> int" where
  "bits n = (if n \<le> 0 then 0 else bits (n div 2) + 1)"
  by pat_completeness auto
termination
  by (relation "measure nat") auto

declare bits.simps [simp del]

text \<open>\<open>floor_log2 a b\<close> is the exponent \<open>p\<close> with \<open>2 ^ p \<le> a / b < 2 ^ (p + 1)\<close>, for
  positive \<open>a\<close> and \<open>b\<close>.\<close>

definition floor_log2 :: "int \<Rightarrow> int \<Rightarrow> int" where
  "floor_log2 a b =
     (let p = bits a - bits b
      in if (if 0 \<le> p then b * 2 ^ nat p \<le> a else b \<le> a * 2 ^ nat (- p)) then p else p - 1)"

definition true_divide :: "int \<Rightarrow> int \<Rightarrow> pyfloat option" where
  "true_divide k d =
     (if d = 0 then None
      else let a = \<bar>k\<bar>; b = \<bar>d\<bar>; neg = ((k < 0) \<noteq> (d < 0))
        in if a = 0 then Some (Float neg 0 0)
           else let e = max (floor_log2 a b - 52) (- 1074); m = scaled a b e
             in if 971 < e \<or> (e = 971 \<and> 2 ^ 53 \<le> m) then None else Some (Float neg m e))"

text \<open>\<^verbatim>\<open>f"{x:.2f}"\<close>: the exact value of the double rounded to hundredths, ties to
  even, written with all its integer digits and two decimals.\<close>

definition hundredths :: "int \<Rightarrow> int \<Rightarrow> int" where
  "hundredths m e = (if 0 \<le> e then m * 100 * 2 ^ nat e else rne (m * 100) (2 ^ nat (- e)))"

definition fixed2 :: "int \<Rightarrow> string" where
  "fixed2 n =
     show_nat (nat (n div 100)) @
       [CHR ''.'', digit_char (nat (n mod 100 div 10)), digit_char (nat (n mod 10))]"

fun format_2f :: "pyfloat \<Rightarrow> string" where
  "format_2f (Float neg m e) = (if neg then ''-'' else []) @ fixed2 (hundredths m e)"

section \<open>The parsed document\<close>

text \<open>
  The program reads the document twice: as text, with regular expressions, and through
  the tree that \<^verbatim>\<open>BeautifulSoup(html, 'html.parser')\<close> builds. The parser is a library;
  its result is an input of the model: the tags in document order, each with the
  attributes the program asks for and with what \<^verbatim>\<open>get_text(strip=True)\<close> returns for
  it, and the text nodes in document order.
\<close>

record tag =
  t_name :: string
  t_class :: "string list"
  t_id :: "string option"
  t_style :: "string option"
  t_text :: string

record soup =
  tags :: "tag list"
  strings :: "string list"

text \<open>\<^verbatim>\<open>soup.find(text=re.compile(r, flags))\<close>: the first text node \<open>r\<close> is found in.\<close>

definition find_text :: "flags \<Rightarrow> regex \<Rightarrow> soup \<Rightarrow> string option" where
  "find_text f r sp = find (matches f r) (strings sp)"

text \<open>\<^verbatim>\<open>soup.find(class_=re.compile(r, flags))\<close>: the first tag with a class \<open>r\<close> is
  found in, and the same for \<^verbatim>\<open>id\<close>.\<close>

definition find_class :: "flags \<Rightarrow> regex \<Rightarrow> soup \<Rightarrow> tag option" where
  "find_class f r sp = find (\<lambda>t. list_ex (matches f r) (t_class t)) (tags sp)"

definition find_id :: "flags \<Rightarrow> regex \<Rightarrow> soup \<Rightarrow> tag option" where
  "find_id f r sp =
     find (\<lambda>t. case t_id t of None \<Rightarrow> False | Some i \<Rightarrow> matches f r i) (tags sp)"

text \<open>\<^verbatim>\<open>soup.find_all(name)\<close> and \<^verbatim>\<open>soup.find_all(name, style=re.compile(r, flags))\<close>.\<close>

definition find_all_name :: "string \<Rightarrow> soup \<Rightarrow> tag list" where
  "find_all_name n sp = filter (\<lambda>t. t_name t = n) (tags sp)"

definition find_all_style :: "string \<Rightarrow> flags \<Rightarrow> regex \<Rightarrow> soup \<Rightarrow> tag list" where
  "find_all_style n f r sp =
     filter (\<lambda>t. t_name t = n \<and> (case t_style t of None \<Rightarrow> False | Some st \<Rightarrow> matches f r st))
       (tags sp)"

section \<open>\<^verbatim>\<open>RTanksScraper._parse_player_data\<close>: classification\<close>

definition base_url :: string where
  "base_url = ''https://ratings.ranked-rtanks.online''"

text \<open>\<^verbatim>\<open>urllib.parse.quote\<close>: letters, digits and \<^verbatim>\<open>_.-~/\<close> stay, every other
  character becomes the bytes of its UTF-8 encoding, each as a percent sign and two
  hexadecimal digits.\<close>

definition hex_digit :: "int \<Rightarrow> char" where
  "hex_digit n = ''0123456789ABCDEF'' ! nat n"

definition percent :: "int \<Rightarrow> string" where
  "percent n = [CHR ''%'', hex_digit (n div 16), hex_digit (n mod 16)]"

definition quote_char :: "char \<Rightarrow> string" where
  "quote_char c =
     (let n = code c
      in if (48 \<le> n \<and> n \<le> 57) \<or> (65 \<le> n \<and> n \<le> 90) \<or> (97 \<le> n \<and> n \<le> 122) \<or>
            c \<in> set ''_.-~/'' then [c]
         else if n < 128 then percent n
         else percent (192 + n div 64) @ percent (128 + n mod 64))"

definition quote :: "string \<Rightarrow> string" where
  "quote s = concat (map quote_char s)"

text \<open>A literal pattern or needle of the second language (see \<open>NonLatin1\<close>).\<close>

definition second_language :: regex where
  "second_language = NonLatin1"

text \<open>The list \<^verbatim>\<open>error_indicators\<close>. The fifth entry is
  \<^verbatim>\<open>needle in html.lower()\<close> for a needle of the second language.\<close>

definition error_indicators :: "soup \<Rightarrow> string \<Rightarrow> string \<Rightarrow> bool list" where
  "error_indicators sp html username =
     [contains ''player not found'' (py_lower html),
      contains ''user not found'' (py_lower html),
      contains ''not found'' (py_lower html) \<and> length html < 5000,
      contains ''404'' html \<and> contains ''error'' (py_lower html),
      matches no_flags second_language (py_lower html),
      find_text IGNORECASE (alts [lit ''404'', lit ''not found'', lit ''error'']) sp \<noteq> None
        \<and> length html < 3000,
      base_url @ ''/'' = base_url @ ''/user/'' @ quote username]"

text \<open>\<^verbatim>\<open>any(xs)\<close>.\<close>

definition any :: "bool list \<Rightarrow> bool" where
  "any xs = list_ex (\<lambda>b. b) xs"

text \<open>The list \<^verbatim>\<open>profile_structure_indicators\<close>. The function builds it and never
  reads it again.\<close>

definition profile_structure_indicators :: "soup \<Rightarrow> bool list" where
  "profile_structure_indicators sp =
     [find_class IGNORECASE (alts [lit ''profile'', lit ''user-info'', lit ''player-card'']) sp \<noteq> None,
      find_id IGNORECASE (alts [lit ''profile'', lit ''user'', lit ''player'']) sp \<noteq> None,
      find_text IGNORECASE (alts [lit ''Activity'', second_language]) sp \<noteq> None,
      find_text IGNORECASE (alts [lit ''Combat Stats'', second_language]) sp \<noteq> None]"

text \<open>The list \<^verbatim>\<open>default_data_indicators\<close>:
  \<^verbatim>\<open>14/400\<close>, \<^verbatim>\<open>Kills:\s*0.*Deaths:\s*0.*K/D:\s*0\.00\<close> (DOTALL),
  \<^verbatim>\<open>Group:\s*Unknown\<close> and \<^verbatim>\<open>Recruit.*14/400\<close> (DOTALL).\<close>

definition default_combat_stats :: regex where
  "default_combat_stats =
     seqs [lit ''Kills:'', Star Space, Lit CHR ''0'', Star AnyChar,
           lit ''Deaths:'', Star Space, Lit CHR ''0'', Star AnyChar,
           lit ''K/D:'', Star Space, lit ''0.00'']"

definition default_experience :: regex where
  "default_experience = lit ''14/400''"

definition default_group :: regex where
  "default_group = seqs [lit ''Group:'', Star Space, lit ''Unknown'']"

definition default_recruit :: regex where
  "default_recruit = seqs [lit ''Recruit'', Star AnyChar, lit ''14/400'']"

definition default_data_indicators :: "string \<Rightarrow> bool list" where
  "default_data_indicators html =
     [matches no_flags default_experience html,
      matches DOTALL default_combat_stats html,
      matches no_flags default_group html,
      matches DOTALL default_recruit html]"

text \<open>The numbers of the patterns: \<^verbatim>\<open>\d{1,3}(?:SEP\d{3})*\<close> for a separator
  pattern \<open>SEP\<close>.\<close>

definition grouped_number :: "regex \<Rightarrow> regex" where
  "grouped_number sep = Seq (Rep 1 3 Digit) (Star (Seq sep (times 3 Digit)))"

definition colon_space :: regex where
  "colon_space = Star (Cls [CChar CHR '':'', CSpace])"

definition comma_space :: regex where
  "comma_space = Cls [CChar CHR '','', CSpace]"

text \<open>\<^verbatim>\<open>(\d{1,3}(?:\s?\d{3})*)\s*/\s*(\d{1,3}(?:\s?\d{3})*)\<close>\<close>

definition exp_pair_spaces :: regex where
  "exp_pair_spaces =
     seqs [Grp 1 (grouped_number (Opt Space)), Star Space, Lit CHR ''/'', Star Space,
           Grp 2 (grouped_number (Opt Space))]"

text \<open>The list \<^verbatim>\<open>meaningful_data_patterns\<close>, each pattern with whether its text
  contains a slash:
  \<^verbatim>\<open>[Kk]ills?[:\s]*([1-9]\d*)\<close>, \<^verbatim>\<open>[Dd]eaths?[:\s]*([1-9]\d*)\<close>, the
  experience pair, and the alternation of rank words.\<close>

definition nonzero_number :: regex where
  "nonzero_number = Seq (Cls [CRange CHR ''1'' CHR ''9'']) (Star Digit)"

definition meaningful_data_patterns :: "(regex \<times> bool) list" where
  "meaningful_data_patterns =
     [(seqs [Cls [CChar CHR ''K'', CChar CHR ''k''], lit ''ill'', Opt (Lit CHR ''s''), colon_space,
             Grp 1 nonzero_number], False),
      (seqs [Cls [CChar CHR ''D'', CChar CHR ''d''], lit ''eath'', Opt (Lit CHR ''s''), colon_space,
             Grp 1 nonzero_number], False),
      (exp_pair_spaces, True),
      (Grp 1 (alts [lit ''Private'', lit ''Gefreiter'', lit ''Corporal'', lit ''Sergeant'',
                    lit ''Lieutenant'', lit ''Captain'', lit ''Major'', lit ''Colonel'',
                    lit ''General'', lit ''Marshal'', lit ''Commander'', lit ''Legend'']), False)]"

text \<open>\<^verbatim>\<open>.replace(',', '').replace(' ', '')\<close>\<close>

definition strip_separators :: "string \<Rightarrow> string" where
  "strip_separators s = replace_char CHR '' '' [] (replace_char CHR '','' [] s)"

text \<open>The loop that sets \<^verbatim>\<open>has_meaningful_data\<close>.\<close>

fun has_meaningful_data :: "(regex \<times> bool) list \<Rightarrow> string \<Rightarrow> bool" where
  "has_meaningful_data [] html = False"
| "has_meaningful_data ((pattern, slash) # ps) html =
     (case re_search IGNORECASE pattern html of
        None \<Rightarrow> has_meaningful_data ps html
      | Some m \<Rightarrow>
          if slash then
            (if strip_separators (m_group m 1) \<noteq> ''14'' then True
             else has_meaningful_data ps html)
          else True)"

section \<open>\<^verbatim>\<open>RTanksScraper._parse_player_data\<close>: the fields\<close>

text \<open>The dictionary \<^verbatim>\<open>player_data\<close>. The key \<^verbatim>\<open>max_experience\<close> may be absent;
  \<^verbatim>\<open>group\<close> is the field \<open>group_name\<close>; the two lists of \<^verbatim>\<open>equipment\<close> are the
  fields \<open>turrets\<close> and \<open>hulls\<close>; \<^verbatim>\<open>status_indicator\<close> is one of two symbols.\<close>

datatype indicator = Green | Red

record player_data =
  username :: string
  rank :: string
  experience :: int
  max_experience :: "int option"
  kills :: int
  deaths :: int
  kd_ratio :: string
  gold_boxes :: int
  premium :: bool
  group_name :: string
  is_online :: bool
  status_indicator :: indicator
  turrets :: "string list"
  hulls :: "string list"

definition initial_player_data :: "string \<Rightarrow> player_data" where
  "initial_player_data u =
     \<lparr>username = u, rank = ''Unknown'', experience = 0, max_experience = None,
      kills = 0, deaths = 0, kd_ratio = ''0.00'', gold_boxes = 0, premium = False,
      group_name = ''Unknown'', is_online = False, status_indicator = Red,
      turrets = [], hulls = []\<rparr>"

subsection \<open>Activity\<close>

text \<open>The loop over spans with its two \<^verbatim>\<open>break\<close>s; \<open>online\<close> is the variable
  \<^verbatim>\<open>is_online\<close>.\<close>

fun yes_no_loop :: "tag list \<Rightarrow> bool \<Rightarrow> bool" where
  "yes_no_loop [] online = online"
| "yes_no_loop (a_span # spans) online =
     (if py_lower (t_text a_span) = ''yes'' then True
      else if py_lower (t_text a_span) = ''no'' then False
      else yes_no_loop spans online)"

definition activity_status :: "soup \<Rightarrow> bool" where
  "activity_status sp =
     (let activity_spans =
            find_all_style ''span'' IGNORECASE
              (seqs [lit ''display:'', Star Space, lit ''none'']) sp;
          online = yes_no_loop activity_spans False
      in if \<not> list_ex (\<lambda>a_span. py_lower (t_text a_span) \<in> set [''yes'', ''no'']) activity_spans
         then yes_no_loop (find_all_name ''span'' sp) online
         else online)"

subsection \<open>Experience\<close>

text \<open>The list \<^verbatim>\<open>exp_patterns\<close>: the pair with spaces, the pair with commas
  \<^verbatim>\<open>(\d{1,3}(?:,\d{3})*)\s*/\s*(\d{1,3}(?:,\d{3})*)\<close>, and
  \<^verbatim>\<open>(\d+)\s*/\s*(\d+)\<close>.\<close>

definition exp_patterns :: "regex list" where
  "exp_patterns =
     [exp_pair_spaces,
      seqs [Grp 1 (grouped_number (Lit CHR '','')), Star Space, Lit CHR ''/'', Star Space,
            Grp 2 (grouped_number (Lit CHR '',''))],
      seqs [Grp 1 (Plus Digit), Star Space, Lit CHR ''/'', Star Space, Grp 2 (Plus Digit)]]"

text \<open>The loop over \<^verbatim>\<open>exp_patterns\<close>, returning the dictionary and \<^verbatim>\<open>exp_found\<close>.
  A \<^verbatim>\<open>ValueError\<close> of either conversion goes on with the next pattern; when the second
  conversion raises, the first value is already stored.\<close>

fun exp_loop :: "regex list \<Rightarrow> string \<Rightarrow> player_data \<Rightarrow> player_data \<times> bool" where
  "exp_loop [] html pd = (pd, False)"
| "exp_loop (pattern # ps) html pd =
     (case re_search no_flags pattern html of
        None \<Rightarrow> exp_loop ps html pd
      | Some m \<Rightarrow>
          (case py_int (strip_separators (m_group m 1)) of
             None \<Rightarrow> exp_loop ps html pd
           | Some cur \<Rightarrow>
               (case py_int (strip_separators (m_group m 2)) of
                  None \<Rightarrow> exp_loop ps html (pd\<lparr>experience := cur\<rparr>)
                | Some mx \<Rightarrow> (pd\<lparr>experience := cur, max_experience := Some mx\<rparr>, True))))"

text \<open>The list \<^verbatim>\<open>single_exp_patterns\<close>:
  \<^verbatim>\<open>Experience[^0-9]*(\d{1,3}(?:,?\d{3})*)\<close>, the same after the label of the second
  language, and after \<^verbatim>\<open>"experience"\<close>.\<close>

definition not_digits :: regex where
  "not_digits = Star (NCls [CRange CHR ''0'' CHR ''9''])"

definition single_exp_patterns :: "regex list" where
  "single_exp_patterns =
     [seqs [lit ''Experience'', not_digits, Grp 1 (grouped_number (Opt (Lit CHR '','')))],
      seqs [second_language, not_digits, Grp 1 (grouped_number (Opt (Lit CHR '','')))],
      seqs [lit ''\"experience\"'', not_digits, Grp 1 (grouped_number (Opt (Lit CHR '','')))]]"

text \<open>A loop that stores the number of the first pattern that matches and stops: \<open>read\<close>
  is what is done to the group before \<^verbatim>\<open>int\<close>. The result is the new value of the
  field, or \<open>None\<close> when \<^verbatim>\<open>int\<close> raises (here nothing catches it).\<close>

fun number_loop :: "(string \<Rightarrow> string) \<Rightarrow> regex list \<Rightarrow> string \<Rightarrow> int \<Rightarrow> int option" where
  "number_loop read [] html old = Some old"
| "number_loop read (pattern # ps) html old =
     (case re_search IGNORECASE pattern html of
        None \<Rightarrow> number_loop read ps html old
      | Some m \<Rightarrow> py_int (read (m_group m 1)))"

definition parse_experience :: "string \<Rightarrow> player_data \<Rightarrow> player_data option" where
  "parse_experience html pd =
     (case exp_loop exp_patterns html pd of
        (pd1, exp_found) \<Rightarrow>
          if \<not> exp_found then
            map_option (\<lambda>e. pd1\<lparr>experience := e\<rparr>)
              (number_loop strip_separators single_exp_patterns html (experience pd1))
          else Some pd1)"

subsection \<open>Rank\<close>

text \<open>The list \<^verbatim>\<open>rank_patterns\<close>: \<^verbatim>\<open>(W|Legend)\s*(\d*)\<close> and then one pattern
  \<^verbatim>\<open>(W|Name)\<close> for each rank name, \<open>W\<close> being its spelling in the second language.\<close>

definition rank_word :: "string \<Rightarrow> regex" where
  "rank_word name = Grp 1 (Alt second_language (lit name))"

definition rank_patterns :: "regex list" where
  "rank_patterns =
     [seqs [rank_word ''Legend'', Star Space, Grp 2 (Star Digit)],
      rank_word ''Generalissimo'',
      rank_word ''Brigadier Commander'',
      rank_word ''Colonel Commander'',
      rank_word ''Lieutenant Colonel Commander'',
      rank_word ''Major Commander'',
      rank_word ''Captain Commander'',
      rank_word ''Lieutenant Commander'',
      rank_word ''Commander'',
      rank_word ''Field Marshal'',
      rank_word ''Marshal'',
      rank_word ''General'',
      rank_word ''Lieutenant General'',
      rank_word ''Major General'',
      rank_word ''Brigadier'',
      rank_word ''Colonel'',
      rank_word ''Lieutenant Colonel'',
      rank_word ''Major'',
      rank_word ''Captain'',
      rank_word ''First Lieutenant'',
      rank_word ''Second Lieutenant'',
      rank_word ''Master Warrant Officer'',
      rank_word ''Warrant Officer'',
      rank_word ''Sergeant Major'',
      rank_word ''First Sergeant'',
      rank_word ''Master Sergeant'',
      rank_word ''Staff Sergeant'',
      rank_word ''Sergeant'',
      rank_word ''Master Corporal'',
      rank_word ''Corporal'',
      rank_word ''Gefreiter'',
      rank_word ''Private'',
      rank_word ''Recruit'']"

text \<open>\<^verbatim>\<open>len(m.groups())\<close>: the number of groups of the pattern.\<close>

primrec groups_count :: "regex \<Rightarrow> nat" where
  "groups_count (Lit c) = 0"
| "groups_count NonLatin1 = 0"
| "groups_count (Cls its) = 0"
| "groups_count (NCls its) = 0"
| "groups_count Digit = 0"
| "groups_count Space = 0"
| "groups_count AnyChar = 0"
| "groups_count Eps = 0"
| "groups_count (Seq a b) = groups_count a + groups_count b"
| "groups_count (Alt a b) = groups_count a + groups_count b"
| "groups_count (Opt a) = groups_count a"
| "groups_count (Star a) = groups_count a"
| "groups_count (Grp k a) = Suc (groups_count a)"

text \<open>\<^verbatim>\<open>rank_mapping.get(rank_text, rank_text)\<close>: every key of the dictionary is a word
  of the second language, so no text of the model is a key.\<close>

definition rank_mapping_get :: "string \<Rightarrow> string" where
  "rank_mapping_get rank_text = rank_text"

text \<open>The loop over \<^verbatim>\<open>rank_patterns\<close>: the rank of the first pattern that matches, or
  \<open>None\<close> when \<^verbatim>\<open>rank_found\<close> stays false.\<close>

fun rank_loop :: "regex list \<Rightarrow> string \<Rightarrow> string option" where
  "rank_loop [] html = None"
| "rank_loop (pattern # ps) html =
     (case re_search IGNORECASE pattern html of
        None \<Rightarrow> rank_loop ps html
      | Some m \<Rightarrow>
          Some (if 1 < groups_count pattern \<and> m_group m 2 \<noteq> []
                then ''Legend '' @ m_group m 2
                else rank_mapping_get (m_group m 1)))"

text \<open>The chain of comparisons that sets the rank from the experience.\<close>

definition legend_level :: "int \<Rightarrow> int" where
  "legend_level e = max 1 ((e - 1600000) div 200000)"

definition rank_by_experience :: "int \<Rightarrow> string" where
  "rank_by_experience e =
     (if 1800000 \<le> e then ''Legend '' @ py_str (legend_level e)
      else if 1600000 \<le> e then ''Generalissimo''
      else if 1400000 \<le> e then ''Commander''
      else if 1255000 \<le> e then ''Field Marshal''
      else if 1122000 \<le> e then ''Marshal''
      else if 1000000 \<le> e then ''General''
      else if 889000 \<le> e then ''Lieutenant General''
      else if 787000 \<le> e then ''Major General''
      else if 695000 \<le> e then ''Brigadier''
      else if 606000 \<le> e then ''Colonel''
      else if 527000 \<le> e then ''Lieutenant Colonel''
      else if 455000 \<le> e then ''Major''
      else if 390000 \<le> e then ''Captain''
      else if 332000 \<le> e then ''First Lieutenant''
      else if 280000 \<le> e then ''Second Lieutenant''
      else if 233000 \<le> e then ''Third Lieutenant''
      else if 192000 \<le> e then ''Warrant Officer 5''
      else if 156000 \<le> e then ''Warrant Officer 4''
      else if 125000 \<le> e then ''Warrant Officer 3''
      else if 98000 \<le> e then ''Warrant Officer 2''
      else if 76000 \<le> e then ''Warrant Officer 1''
      else if 57000 \<le> e then ''Sergeant Major''
      else if 41000 \<le> e then ''First Sergeant''
      else if 29000 \<le> e then ''Master Sergeant''
      else if 20000 \<le> e then ''Staff Sergeant''
      else if 12300 \<le> e then ''Sergeant''
      else if 7700 \<le> e then ''Master Corporal''
      else if 4400 \<le> e then ''Corporal''
      else if 2200 \<le> e then ''Gefreiter''
      else if 1000 \<le> e then ''Private''
      else ''Recruit'')"

definition parse_rank :: "string \<Rightarrow> player_data \<Rightarrow> player_data" where
  "parse_rank html pd =
     (case rank_loop rank_patterns html of
        Some r \<Rightarrow> pd\<lparr>rank := r\<rparr>
      | None \<Rightarrow>
          if 0 < experience pd then pd\<lparr>rank := rank_by_experience (experience pd)\<rparr> else pd)"

subsection \<open>Kills, deaths and their ratio\<close>

text \<open>The lists \<^verbatim>\<open>kill_patterns\<close> and \<^verbatim>\<open>death_patterns\<close>:
  \<^verbatim>\<open>[Kk]ills?[:\s]*(\d{1,3}(?:[,\s]\d{3})*)\<close>, the same after the label of the
  second language, and after \<^verbatim>\<open>"kills"\<close>; and likewise for deaths.\<close>

definition kill_label :: regex where
  "kill_label = seqs [Cls [CChar CHR ''K'', CChar CHR ''k''], lit ''ill'', Opt (Lit CHR ''s'')]"

definition death_label :: regex where
  "death_label = seqs [Cls [CChar CHR ''D'', CChar CHR ''d''], lit ''eath'', Opt (Lit CHR ''s'')]"

definition counted :: "regex \<Rightarrow> regex" where
  "counted label = seqs [label, colon_space, Grp 1 (grouped_number comma_space)]"

definition kill_patterns :: "regex list" where
  "kill_patterns = [counted kill_label, counted second_language, counted (lit ''\"kills\"'')]"

definition death_patterns :: "regex list" where
  "death_patterns = [counted death_label, counted second_language, counted (lit ''\"deaths\"'')]"

text \<open>The ratio, as the function computes it in line, and \<^verbatim>\<open>utils.calculate_kd_ratio\<close>,
  which is the same expression. \<open>None\<close> is the \<^verbatim>\<open>OverflowError\<close> of the division.\<close>

definition kd_ratio_of :: "int \<Rightarrow> int \<Rightarrow> string option" where
  "kd_ratio_of k d =
     (if d = 0 then Some (if 0 < k then py_str k else ''0.00'')
      else map_option format_2f (true_divide k d))"

definition calculate_kd_ratio :: "int \<Rightarrow> int \<Rightarrow> string option" where
  "calculate_kd_ratio k d =
     (if d = 0 then Some (if 0 < k then py_str k else ''0.00'')
      else map_option format_2f (true_divide k d))"

definition parse_combat :: "string \<Rightarrow> player_data \<Rightarrow> player_data option" where
  "parse_combat html pd =
     (case number_loop strip_separators kill_patterns html (kills pd) of
        None \<Rightarrow> None
      | Some k \<Rightarrow>
          (case number_loop strip_separators death_patterns html (deaths pd) of
             None \<Rightarrow> None
           | Some d \<Rightarrow>
               map_option (\<lambda>r. pd\<lparr>kills := k, deaths := d, kd_ratio := r\<rparr>) (kd_ratio_of k d)))"

subsection \<open>Gold boxes, premium, group\<close>

text \<open>The list \<^verbatim>\<open>gold_patterns\<close>: \<^verbatim>\<open>[Gg]old[^0-9]*[Bb]oxes?[:\s]*(\d+)\<close>, the
  pattern of the second language, and \<^verbatim>\<open>"gold_boxes"[:\s]*(\d+)\<close>.\<close>

definition gold_patterns :: "regex list" where
  "gold_patterns =
     [seqs [Cls [CChar CHR ''G'', CChar CHR ''g''], lit ''old'', not_digits,
            Cls [CChar CHR ''B'', CChar CHR ''b''], lit ''oxe'', Opt (Lit CHR ''s''), colon_space,
            Grp 1 (Plus Digit)],
      seqs [second_language, not_digits, second_language, colon_space, Grp 1 (Plus Digit)],
      seqs [lit ''\"gold_boxes\"'', colon_space, Grp 1 (Plus Digit)]]"

definition premium_indicators :: "string \<Rightarrow> bool list" where
  "premium_indicators html =
     [contains ''premium'' (py_lower html),
      matches no_flags second_language (py_lower html),
      contains ''\"premium\": true'' (py_lower html)]"

text \<open>The list \<^verbatim>\<open>group_patterns\<close>: \<^verbatim>\<open>[Gg]roup[:\s]*([^<\n\r]+)\<close>,
  \<^verbatim>\<open>[Cc]lan[:\s]*([^<\n\r]+)\<close>, the same after the label of the second language, and
  \<^verbatim>\<open>"group"[:\s]*"([^"]+)"\<close>.\<close>

definition to_line_end :: regex where
  "to_line_end = Plus (NCls [CChar CHR ''<'', CChar CHR 0x0A, CChar CHR 0x0D])"

definition group_patterns :: "regex list" where
  "group_patterns =
     [seqs [Cls [CChar CHR ''G'', CChar CHR ''g''], lit ''roup'', colon_space, Grp 1 to_line_end],
      seqs [Cls [CChar CHR ''C'', CChar CHR ''c''], lit ''lan'', colon_space, Grp 1 to_line_end],
      seqs [second_language, colon_space, Grp 1 to_line_end],
      seqs [lit ''\"group\"'', colon_space, Lit CHR ''\"'', Grp 1 (Plus (NCls [CChar CHR ''\"''])),
            Lit CHR ''\"'']]"

text \<open>The loop over \<^verbatim>\<open>group_patterns\<close>: a name that is empty or a placeholder goes on
  with the next pattern.\<close>

fun group_loop :: "regex list \<Rightarrow> string \<Rightarrow> string \<Rightarrow> string" where
  "group_loop [] html old = old"
| "group_loop (pattern # ps) html old =
     (case re_search IGNORECASE pattern html of
        None \<Rightarrow> group_loop ps html old
      | Some m \<Rightarrow>
          (let name = py_strip (m_group m 1)
           in if name \<noteq> [] \<and> py_lower name \<notin> set [''unknown'', ''none'', ''null'', []]
              then name else group_loop ps html old))"

subsection \<open>Equipment\<close>

text \<open>
  \<^verbatim>\<open>config.TURRET_NAMES\<close> and \<^verbatim>\<open>config.HULL_NAMES\<close> are parameters. A name is put
  into the patterns as it is; the model reads it as literal text, which is what the pattern
  means for a name of letters, digits and spaces.
  The three patterns of a name: \<^verbatim>\<open>NAME[^a-zA-Z0-9]*M(\d+)\<close>,
  \<^verbatim>\<open>NAME[^a-zA-Z0-9]*(\d+)\<close> and \<^verbatim>\<open>NAME\<close>. \<^verbatim>\<open>re.findall\<close> returns the texts
  of the group for the first two and the texts of the matches for the third.
\<close>

record config =
  TURRET_NAMES :: "string list"
  HULL_NAMES :: "string list"

definition not_alnum :: regex where
  "not_alnum =
     Star (NCls [CRange CHR ''a'' CHR ''z'', CRange CHR ''A'' CHR ''Z'', CRange CHR ''0'' CHR ''9''])"

definition equipment_findall :: "string \<Rightarrow> string \<Rightarrow> string list list" where
  "equipment_findall name html =
     [findall_group IGNORECASE (seqs [lit name, not_alnum, Lit CHR ''M'', Grp 1 (Plus Digit)]) html,
      findall_group IGNORECASE (seqs [lit name, not_alnum, Grp 1 (Plus Digit)]) html,
      findall_text IGNORECASE (lit name) html]"

text \<open>What one element of a \<^verbatim>\<open>re.findall\<close> result appends: the three branches of the
  inner loop, in order (an empty text is false, any other text is true).\<close>

definition found_entry :: "string \<Rightarrow> string \<Rightarrow> string list" where
  "found_entry name match =
     (if py_isdigit match then [name @ '' M'' @ match]
      else if match = [] then [name]
      else if match \<noteq> [] then [name @ '' M'' @ match]
      else [])"

text \<open>The loop over the patterns of one name: the entries of the first result that is not
  empty.\<close>

fun pattern_loop :: "string \<Rightarrow> string list list \<Rightarrow> string list" where
  "pattern_loop name [] = []"
| "pattern_loop name (found # rest) =
     concat (map (found_entry name) found) @ (if found \<noteq> [] then [] else pattern_loop name rest)"

definition equipment_found :: "string list \<Rightarrow> string \<Rightarrow> string list" where
  "equipment_found names html =
     concat (map (\<lambda>name. pattern_loop name (equipment_findall name html)) names)"

text \<open>\<^verbatim>\<open>list(dict.fromkeys(xs))\<close>: the first occurrence of each element, in order.\<close>

definition dict_fromkeys :: "string list \<Rightarrow> string list" where
  "dict_fromkeys xs = foldl (\<lambda>acc x. if x \<in> set acc then acc else acc @ [x]) [] xs"

subsection \<open>The function\<close>

text \<open>The fields after the classification, in the order of the source. \<open>None\<close> is an
  exception, which the function turns into the result \<^verbatim>\<open>None\<close>.\<close>

definition parse_fields :: "config \<Rightarrow> soup \<Rightarrow> string \<Rightarrow> string \<Rightarrow> player_data option" where
  "parse_fields cfg sp html u =
     (let online = activity_status sp;
          pd = (initial_player_data u)
                 \<lparr>is_online := online, status_indicator := (if online then Green else Red)\<rparr>
      in case parse_experience html pd of
           None \<Rightarrow> None
         | Some pd1 \<Rightarrow>
             (case parse_combat html (parse_rank html pd1) of
                None \<Rightarrow> None
              | Some pd2 \<Rightarrow>
                  (case number_loop (\<lambda>t. t) gold_patterns html (gold_boxes pd2) of
                     None \<Rightarrow> None
                   | Some g \<Rightarrow>
                       Some (pd2\<lparr>gold_boxes := g,
                                 premium := any (premium_indicators html),
                                 group_name := group_loop group_patterns html (group_name pd2),
                                 turrets := dict_fromkeys (equipment_found (TURRET_NAMES cfg) html),
                                 hulls := dict_fromkeys (equipment_found (HULL_NAMES cfg) html)\<rparr>))))"

text \<open>\<^verbatim>\<open>_parse_player_data(html, username)\<close>: the three rejections, then the fields.\<close>

definition parse_player_data :: "config \<Rightarrow> soup \<Rightarrow> string \<Rightarrow> string \<Rightarrow> player_data option" where
  "parse_player_data cfg sp html u =
     (if any (error_indicators sp html u) then None
      else if any (default_data_indicators html) then None
      else if \<not> has_meaningful_data meaningful_data_patterns html then None
      else parse_fields cfg sp html u)"

section \<open>\<^verbatim>\<open>utils\<close>: ranks and their symbols\<close>

text \<open>The dictionary \<^verbatim>\<open>rank_mapping\<close> of \<^verbatim>\<open>get_rank_emoji\<close>.\<close>

definition rank_mapping :: "(string \<times> nat) list" where
  "rank_mapping =
     [(''recruit'', 1), (''private'', 2), (''gefreiter'', 3),
      (''corporal'', 4), (''master_corporal'', 5), (''sergeant'', 6),
      (''staff_sergeant'', 7), (''master_sergeant'', 8), (''first_sergeant'', 9),
      (''sergeant_major'', 10), (''warrant_officer_1'', 11), (''warrant_officer_2'', 12),
      (''warrant_officer_3'', 13), (''warrant_officer_4'', 14), (''warrant_officer_5'', 15),
      (''third_lieutenant'', 16), (''second_lieutenant'', 17), (''first_lieutenant'', 18),
      (''captain'', 19), (''major'', 20), (''lieutenant_colonel'', 21),
      (''colonel'', 22), (''brigadier'', 23), (''major_general'', 24),
      (''lieutenant_general'', 25), (''general'', 26), (''marshal'', 27),
      (''field_marshal'', 28), (''commander'', 29), (''generalissimo'', 30),
      (''legend'', 31), (''legend_premium'', 31)]"

text \<open>
  \<^verbatim>\<open>get_rank_emoji(rank_name)\<close> looks a number up in \<^verbatim>\<open>config.RANK_EMOJIS\<close>, with a
  trophy as the default; the table and the trophy are parameters. \<open>emoji_index\<close> is
  the number it looks up: 31 for a name that starts with \<^verbatim>\<open>Legend\<close>, else the entry of
  \<^verbatim>\<open>rank_name.lower().replace(' ', '_')\<close> in \<^verbatim>\<open>rank_mapping\<close>, else 31.
\<close>

definition normal_name :: "string \<Rightarrow> string" where
  "normal_name rank_name = replace_char CHR '' '' ''_'' (py_lower rank_name)"

definition emoji_index :: "string \<Rightarrow> nat" where
  "emoji_index rank_name =
     (if startswith rank_name ''Legend'' then 31
      else case map_of rank_mapping (normal_name rank_name) of Some i \<Rightarrow> i | None \<Rightarrow> 31)"

definition get_rank_emoji :: "(nat \<rightharpoonup> 'e) \<Rightarrow> 'e \<Rightarrow> string \<Rightarrow> 'e" where
  "get_rank_emoji RANK_EMOJIS trophy rank_name =
     (case RANK_EMOJIS (emoji_index rank_name) of Some e \<Rightarrow> e | None \<Rightarrow> trophy)"

text \<open>The dictionary \<^verbatim>\<open>rank_experience_map\<close> of \<^verbatim>\<open>get_max_experience_for_rank\<close>:
  the rank names from the lowest to the highest, each with the experience that ends it.\<close>

definition rank_experience_map :: "(string \<times> int) list" where
  "rank_experience_map =
     [(''Recruit'', 400), (''Private'', 1000), (''Gefreiter'', 2200),
      (''Corporal'', 4400), (''Master Corporal'', 7700), (''Sergeant'', 12300),
      (''Staff Sergeant'', 20000), (''Master Sergeant'', 29000), (''First Sergeant'', 41000),
      (''Sergeant Major'', 57000), (''Warrant Officer 1'', 76000), (''Warrant Officer 2'', 98000),
      (''Warrant Officer 3'', 125000), (''Warrant Officer 4'', 156000), (''Warrant Officer 5'', 192000),
      (''Third Lieutenant'', 233000), (''Second Lieutenant'', 280000), (''First Lieutenant'', 332000),
      (''Captain'', 390000), (''Major'', 455000), (''Lieutenant Colonel'', 527000),
      (''Colonel'', 606000), (''Brigadier'', 695000), (''Major General'', 787000),
      (''Lieutenant General'', 889000), (''General'', 1000000), (''Marshal'', 1122000),
      (''Field Marshal'', 1255000), (''Commander'', 1400000), (''Generalissimo'', 1600000),
      (''Legend'', 1800000)]"

definition rank_progression :: "string list" where
  "rank_progression = map fst rank_experience_map"

section \<open>Notions used in the statements\<close>

text \<open>A text that begins with a decimal digit.\<close>

definition digit_led :: "string \<Rightarrow> bool" where
  "digit_led t = (case t of [] \<Rightarrow> False | c # _ \<Rightarrow> is_decimal c)"

text \<open>A pattern that reads only texts that begin with a digit; a pattern whose groups 1 and
  2, and a pattern whose group 1, begin with a digit in every match.\<close>

definition number_like :: "regex \<Rightarrow> bool" where
  "number_like r \<longleftrightarrow>
     (\<forall>f x y. y \<in> set (ms f r x) \<longrightarrow> digit_led (take (length (snd x) - length (snd y)) (snd x)))"

definition pair_ok :: "regex \<Rightarrow> bool" where
  "pair_ok p \<longleftrightarrow>
     (\<forall>f s m. re_search f p s = Some m \<longrightarrow> digit_led (m_group m 1) \<and> digit_led (m_group m 2))"

definition single_ok :: "regex \<Rightarrow> bool" where
  "single_ok p \<longleftrightarrow> (\<forall>f s m. re_search f p s = Some m \<longrightarrow> digit_led (m_group m 1))"

text \<open>The text that follows the first occurrence of a label in the document, the label
  taken with the colons and white space after it (\<^verbatim>\<open>[Kk]ills?[:\s]*\<close> for the kills).\<close>

definition after_label :: "regex \<Rightarrow> string \<Rightarrow> string option" where
  "after_label label html = map_option m_rest (re_search IGNORECASE (Seq label colon_space) html)"

text \<open>The seniority of the rank that the experience gives: its number in the progression.\<close>

definition tier :: "int \<Rightarrow> nat" where
  "tier e = emoji_index (rank_by_experience e)"

text \<open>A number written with digits, a point and exactly two decimals.\<close>

definition two_decimals :: "string \<Rightarrow> bool" where
  "two_decimals s =
     (case rev s of
        b # a # p # w \<Rightarrow> p = CHR ''.'' \<and> w \<noteq> [] \<and> list_all is_decimal (b # a # w)
      | _ \<Rightarrow> False)"

text \<open>The number that a decimal text with a point denotes.\<close>

definition decimal_value :: "string \<Rightarrow> real" where
  "decimal_value s =
     (let w = takeWhile (\<lambda>c. c \<noteq> CHR ''.'') s; f = drop (length w + 1) s
      in real_of_int (dec_value w) + real_of_int (dec_value f) / 10 ^ length f)"

text \<open>Two to an integer power, of either sign, as a real number.\<close>

definition pow2 :: "int \<Rightarrow> real" where
  "pow2 e = 2 powr real_of_int e"

text \<open>Example inputs: a configuration with one turret and one hull name, and what the
  parser builds for a document that is plain text without tags (one text node).\<close>

definition example_config :: config where
  "example_config = \<lparr>TURRET_NAMES = [''Smoky''], HULL_NAMES = [''Hunter'']\<rparr>"

definition text_soup :: "string \<Rightarrow> soup" where
  "text_soup t = \<lparr>tags = [], strings = [t]\<rparr>"

section \<open>The function, field by field\<close>

lemma exp_loop_keeps:
  "exp_loop ps html pd = (pd', b) \<Longrightarrow>
     rank pd' = rank pd \<and> kills pd' = kills pd \<and> deaths pd' = deaths pd \<and> username pd' = username pd"
proof (induction ps arbitrary: pd)
  case Nil
  then show ?case by simp
next
  case (Cons p ps)
  then show ?case
    by (fastforce split: option.splits)
qed

lemma parse_experience_keeps:
  assumes "parse_experience html pd = Some pd'"
  shows "rank pd' = rank pd" and "kills pd' = kills pd" and "deaths pd' = deaths pd"
  using assms exp_loop_keeps [of exp_patterns html pd]
  by (auto simp: parse_experience_def split: prod.splits if_splits)

lemma parse_rank_fields:
  "experience (parse_rank html pd) = experience pd"
  "max_experience (parse_rank html pd) = max_experience pd"
  "kills (parse_rank html pd) = kills pd"
  "deaths (parse_rank html pd) = deaths pd"
  by (simp_all add: parse_rank_def split: option.splits)

lemma parse_rank_rank:
  "rank (parse_rank html pd) =
     (case rank_loop rank_patterns html of
        Some t \<Rightarrow> t
      | None \<Rightarrow> if 0 < experience pd then rank_by_experience (experience pd) else rank pd)"
  by (simp add: parse_rank_def split: option.splits)

lemma parse_combat_fields:
  assumes "parse_combat html pd = Some pd'"
  shows "rank pd' = rank pd" and "experience pd' = experience pd"
    and "max_experience pd' = max_experience pd"
    and "number_loop strip_separators kill_patterns html (kills pd) = Some (kills pd')"
    and "number_loop strip_separators death_patterns html (deaths pd) = Some (deaths pd')"
    and "kd_ratio_of (kills pd') (deaths pd') = Some (kd_ratio pd')"
  using assms by (auto simp: parse_combat_def split: option.splits)

text \<open>What a record that the function returns says about the document.\<close>

lemma parse_fields_record:
  assumes "parse_fields cfg sp html u = Some r"
  shows "\<exists>pd1. parse_experience html
            ((initial_player_data u)\<lparr>is_online := activity_status sp,
               status_indicator := (if activity_status sp then Green else Red)\<rparr>) = Some pd1
          \<and> experience r = experience pd1 \<and> max_experience r = max_experience pd1
          \<and> rank r = (case rank_loop rank_patterns html of
                        Some t \<Rightarrow> t
                      | None \<Rightarrow> if 0 < experience r then rank_by_experience (experience r)
                                else ''Unknown'')
          \<and> number_loop strip_separators kill_patterns html 0 = Some (kills r)
          \<and> number_loop strip_separators death_patterns html 0 = Some (deaths r)
          \<and> kd_ratio_of (kills r) (deaths r) = Some (kd_ratio r)"
proof -
  let ?pd0 = "(initial_player_data u)\<lparr>is_online := activity_status sp,
               status_indicator := (if activity_status sp then Green else Red)\<rparr>"
  from assms obtain pd1 pd2 g where
    e: "parse_experience html ?pd0 = Some pd1" and
    c: "parse_combat html (parse_rank html pd1) = Some pd2" and
    r: "r = pd2\<lparr>gold_boxes := g, premium := any (premium_indicators html),
                 group_name := group_loop group_patterns html (group_name pd2),
                 turrets := dict_fromkeys (equipment_found (TURRET_NAMES cfg) html),
                 hulls := dict_fromkeys (equipment_found (HULL_NAMES cfg) html)\<rparr>"
    by (auto simp: parse_fields_def Let_def split: option.splits)
  have k0: "rank pd1 = ''Unknown''" "kills pd1 = 0" "deaths pd1 = 0"
    using parse_experience_keeps [OF e] by (simp_all add: initial_player_data_def)
  note cf = parse_combat_fields [OF c]
  show ?thesis
    using e r cf k0 by (auto simp: parse_rank_fields parse_rank_rank split: option.splits)
qed

lemma parse_player_data_SomeD:
  assumes "parse_player_data cfg sp html u = Some r"
  shows "parse_fields cfg sp html u = Some r"
    and "\<not> any (error_indicators sp html u)"
    and "\<not> any (default_data_indicators html)"
    and "has_meaningful_data meaningful_data_patterns html"
  using assms by (simp_all add: parse_player_data_def split: if_splits)

section \<open>The matcher\<close>

subsection \<open>Literal patterns\<close>

lemma ms_lit: "ms no_flags (lit w) (cs, s) = (if take (length w) s = w then [(cs, drop (length w) s)] else [])"
proof (induction w arbitrary: s)
  case Nil
  then show ?case by (simp add: lit_def)
next
  case (Cons a w)
  have "lit (a # w) = Seq (Lit a) (lit w)" by (simp add: lit_def)
  then show ?case using Cons
    by (cases s) (auto simp: one_char_def lit_ok_def no_flags_def)
qed

lemma matches_lit: "matches no_flags (lit w) s = contains w s"
proof (induction s)
  case Nil
  then show ?case by (auto simp: matches_def ms_lit)
next
  case (Cons c s)
  then show ?case by (auto simp: matches_def ms_lit)
qed

subsection \<open>What the matcher reads\<close>

lemma one_char_mem:
  "y \<in> set (one_char ok x) \<longleftrightarrow> (\<exists>c. snd x = c # snd y \<and> ok c \<and> fst y = fst x)"
  by (cases x; cases y; cases "snd x") (auto simp: one_char_def)

lemma star_suffix:
  assumes "\<And>x y. y \<in> set (m x) \<Longrightarrow> \<exists>p. snd x = p @ snd y"
  shows "y \<in> set (star m n x) \<Longrightarrow> \<exists>p. snd x = p @ snd y"
proof (induction n arbitrary: x y)
  case 0
  then show ?case by simp
next
  case (Suc n)
  from Suc.prems consider "y = x"
    | z where "z \<in> set (m x)" "y \<in> set (star m n z)"
    by (auto split: if_splits)
  then show ?case
  proof cases
    case 1
    then show ?thesis by simp
  next
    case 2
    from assms [OF 2(1)] obtain p where "snd x = p @ snd z" by blast
    moreover from Suc.IH [OF 2(2)] obtain q where "snd z = q @ snd y" by blast
    ultimately show ?thesis by simp
  qed
qed

lemma ms_suffix: "y \<in> set (ms f r x) \<Longrightarrow> \<exists>p. snd x = p @ snd y"
proof (induction r arbitrary: x y)
  case (Seq a b)
  then obtain z where z: "z \<in> set (ms f a x)" "y \<in> set (ms f b z)" by auto
  from Seq.IH(1) [OF z(1)] obtain p where "snd x = p @ snd z" by blast
  moreover from Seq.IH(2) [OF z(2)] obtain q where "snd z = q @ snd y" by blast
  ultimately show ?case by simp
next
  case (Star a)
  have step: "\<And>x y. y \<in> set (ms f a x) \<Longrightarrow> \<exists>p. snd x = p @ snd y"
    using Star.IH .
  from Star.prems have "y \<in> set (star (ms f a) (length (snd x)) x)" by simp
  from star_suffix [of "ms f a", OF step this] show ?case .
next
  case (Grp k a)
  then obtain z where "z \<in> set (ms f a x)" "y = close_group k (snd x) z" by auto
  with Grp.IH [of z x] show ?case by (simp add: close_group_def)
qed (auto simp: one_char_mem)

lemma ms_length:
  assumes "y \<in> set (ms f r x)"
  shows "length (snd y) \<le> length (snd x)"
proof -
  from ms_suffix [OF assms] obtain p where "snd x = p @ snd y" by blast
  then show ?thesis by simp
qed

text \<open>A pattern without groups leaves the groups as they are.\<close>

lemma star_groups:
  assumes "\<And>x y. y \<in> set (m x) \<Longrightarrow> fst y = fst x"
  shows "y \<in> set (star m n x) \<Longrightarrow> fst y = fst x"
proof (induction n arbitrary: x y)
  case 0
  then show ?case by simp
next
  case (Suc n)
  from Suc.prems consider "y = x"
    | z where "z \<in> set (m x)" "y \<in> set (star m n z)"
    by (auto split: if_splits)
  then show ?case
  proof cases
    case 1
    then show ?thesis by simp
  next
    case 2
    then show ?thesis using assms [OF 2(1)] Suc.IH [OF 2(2)] by simp
  qed
qed

lemma ms_groups: "groups_count r = 0 \<Longrightarrow> y \<in> set (ms f r x) \<Longrightarrow> fst y = fst x"
proof (induction r arbitrary: x y)
  case (Seq a b)
  then obtain z where z: "z \<in> set (ms f a x)" "y \<in> set (ms f b z)" by auto
  from Seq.prems(1) have g: "groups_count a = 0" "groups_count b = 0" by simp_all
  from Seq.IH(1) [OF g(1) z(1)] Seq.IH(2) [OF g(2) z(2)] show ?case by simp
next
  case (Alt a b)
  from Alt.prems(1) have g: "groups_count a = 0" "groups_count b = 0" by simp_all
  from Alt.prems(2) have "y \<in> set (ms f a x) \<or> y \<in> set (ms f b x)" by simp
  with Alt.IH(1) [OF g(1)] Alt.IH(2) [OF g(2)] show ?case by blast
next
  case (Opt a)
  from Opt.prems(2) have "y \<in> set (ms f a x) \<or> y = x" by auto
  with Opt.IH [of y x] Opt.prems(1) show ?case by auto
next
  case (Star a)
  from Star.prems(1) have g: "groups_count a = 0" by simp
  have step: "\<And>x y. y \<in> set (ms f a x) \<Longrightarrow> fst y = fst x"
    using Star.IH [OF g] .
  from Star.prems(2) have "y \<in> set (star (ms f a) (length (snd x)) x)" by simp
  from star_groups [of "ms f a", OF step this] show ?case .
next
  case (Grp k a)
  then show ?case by simp
qed (auto simp: one_char_mem)

text \<open>A pattern that begins with a digit reads a text that begins with a digit.\<close>

lemma digit_first_number_like: "number_like (Seq Digit r)"
  unfolding number_like_def
proof (intro allI impI)
  fix f x y
  assume "y \<in> set (ms f (Seq Digit r) x)"
  then obtain z where z: "z \<in> set (ms f Digit x)" "y \<in> set (ms f r z)" by auto
  from z(1) obtain c where c: "snd x = c # snd z" "is_decimal c" by (auto simp: one_char_mem)
  from ms_length [OF z(2)] have "length (snd y) \<le> length (snd z)" .
  with c show "digit_led (take (length (snd x) - length (snd y)) (snd x))"
    by (simp add: digit_led_def Suc_diff_le)
qed

lemma concat_map_bind:
  "concat (map g (concat (map h xs))) = concat (map (\<lambda>x. concat (map g (h x))) xs)"
  by (induction xs) simp_all

lemma ms_Seq_assoc: "ms f (Seq (Seq a b) c) x = ms f (Seq a (Seq b c)) x"
proof -
  have "ms f (Seq b c) = (\<lambda>z. concat (map (ms f c) (ms f b z)))"
    by (rule ext) simp
  then show ?thesis by (simp add: concat_map_bind)
qed

text \<open>What \<^verbatim>\<open>re.search\<close> returns is a match of the pattern at some position.\<close>

lemma re_search_SomeD:
  "re_search f r s = Some m \<Longrightarrow> \<exists>s' y. y \<in> set (ms f r ([], s')) \<and> m = mk_match s' y"
proof (induction s)
  case Nil
  then obtain y ys where "ms f r ([], []) = y # ys" "m = mk_match [] y"
    by (auto split: list.splits)
  then have "y \<in> set (ms f r ([], []))" by simp
  with \<open>m = mk_match [] y\<close> show ?case by blast
next
  case (Cons c s)
  show ?case
  proof (cases "ms f r ([], c # s)")
    case Nil
    with Cons show ?thesis by simp
  next
    case (Cons y ys)
    with Cons.prems have "m = mk_match (c # s) y" by simp
    moreover from Cons have "y \<in> set (ms f r ([], c # s))" by simp
    ultimately show ?thesis by blast
  qed
qed

text \<open>The numbers of the patterns begin with a digit.\<close>

lemma digit_led_take: "digit_led (take n s) \<Longrightarrow> n \<le> k \<Longrightarrow> digit_led (take k s)"
  by (cases s; cases n; cases k) (simp_all add: digit_led_def)

lemma number_like_Seq:
  assumes "number_like a"
  shows "number_like (Seq a b)"
  unfolding number_like_def
proof (intro allI impI)
  fix f x y
  assume "y \<in> set (ms f (Seq a b) x)"
  then obtain z where z: "z \<in> set (ms f a x)" "y \<in> set (ms f b z)" by auto
  from assms z(1) have "digit_led (take (length (snd x) - length (snd z)) (snd x))"
    unfolding number_like_def by blast
  moreover from ms_length [OF z(2)]
  have "length (snd x) - length (snd z) \<le> length (snd x) - length (snd y)" by simp
  ultimately show "digit_led (take (length (snd x) - length (snd y)) (snd x))"
    by (rule digit_led_take)
qed

lemma grouped_number_like: "number_like (grouped_number sep)"
  unfolding grouped_number_def Rep_def
  by (simp add: number_like_Seq digit_first_number_like)

lemma plus_digit_number_like: "number_like (Plus Digit)"
  unfolding Plus_def by (rule digit_first_number_like)

lemma ms_Seq_mem: "y \<in> set (ms f (Seq a b) x) \<longleftrightarrow> (\<exists>z\<in>set (ms f a x). y \<in> set (ms f b z))"
  by auto

lemma ms_Grp_mem:
  "y \<in> set (ms f (Grp k a) x) \<longleftrightarrow> (\<exists>z\<in>set (ms f a x). y = close_group k (snd x) z)"
  by auto

text \<open>The groups of a match of \<open>N1 A B C N2\<close> and of \<open>L C N\<close>, for numbers in the
  groups and no other group.\<close>

lemma pair_groups:
  assumes n1: "number_like n1" "groups_count n1 = 0"
    and n2: "number_like n2" "groups_count n2 = 0"
    and free: "groups_count a = 0" "groups_count b = 0" "groups_count c = 0"
    and m: "re_search f (seqs [Grp 1 n1, a, b, c, Grp 2 n2]) s = Some m"
  shows "digit_led (m_group m 1) \<and> digit_led (m_group m 2)"
proof -
  from re_search_SomeD [OF m] obtain s' y where
    y: "y \<in> set (ms f (seqs [Grp 1 n1, a, b, c, Grp 2 n2]) ([], s'))" and mk: "m = mk_match s' y"
    by blast
  from y have "\<exists>z1\<in>set (ms f (Grp 1 n1) ([], s')). \<exists>z2\<in>set (ms f a z1).
      \<exists>z3\<in>set (ms f b z2). \<exists>z4\<in>set (ms f c z3). y \<in> set (ms f (Grp 2 n2) z4)"
    by (simp only: seqs.simps ms_Seq_mem)
  then obtain z1 z2 z3 z4 where
    y1: "z1 \<in> set (ms f (Grp 1 n1) ([], s'))" and y2: "z2 \<in> set (ms f a z1)"
    and y3: "z3 \<in> set (ms f b z2)" and y4: "z4 \<in> set (ms f c z3)"
    and y4': "y \<in> set (ms f (Grp 2 n2) z4)"
    by blast
  from y1 obtain w1 where w1: "w1 \<in> set (ms f n1 ([], s'))" "z1 = close_group 1 s' w1"
    unfolding ms_Grp_mem by auto
  from y4' obtain z5 where y5: "z5 \<in> set (ms f n2 z4)" "y = close_group 2 (snd z4) z5"
    unfolding ms_Grp_mem by auto
  note z = w1 y2 y3 y4 y5
  have g1: "digit_led (take (length s' - length (snd w1)) s')"
    using n1(1) z(1) unfolding number_like_def by fastforce
  have g2: "digit_led (take (length (snd z4) - length (snd z5)) (snd z4))"
    using n2(1) z(6) unfolding number_like_def by fastforce
  have "fst w1 = []" using ms_groups [OF n1(2) z(1)] by simp
  moreover have "fst z5 = fst z4" using ms_groups [OF n2(2) z(6)] .
  moreover have "fst z4 = fst z1"
    using ms_groups [OF free(1) z(3)] ms_groups [OF free(2) z(4)] ms_groups [OF free(3) z(5)]
    by simp
  ultimately have "fst y = [(2, take (length (snd z4) - length (snd z5)) (snd z4)),
                            (1, take (length s' - length (snd w1)) s')]"
    using z(2,7) by (simp add: close_group_def)
  with g1 g2 mk show ?thesis by (simp add: m_group_def mk_match_def)
qed

lemma single_group:
  assumes n: "number_like n" "groups_count n = 0"
    and free: "groups_count a = 0" "groups_count b = 0"
    and m: "re_search f (seqs [a, b, Grp 1 n]) s = Some m"
  shows "digit_led (m_group m 1)"
proof -
  from re_search_SomeD [OF m] obtain s' y where
    y: "y \<in> set (ms f (seqs [a, b, Grp 1 n]) ([], s'))" and mk: "m = mk_match s' y"
    by blast
  from y have "\<exists>z1\<in>set (ms f a ([], s')). \<exists>z2\<in>set (ms f b z1). y \<in> set (ms f (Grp 1 n) z2)"
    by (simp only: seqs.simps ms_Seq_mem)
  then obtain z1 z2 where
    y1: "z1 \<in> set (ms f a ([], s'))" and y2: "z2 \<in> set (ms f b z1)"
    and y2': "y \<in> set (ms f (Grp 1 n) z2)"
    by blast
  from y2' obtain z3 where y3: "z3 \<in> set (ms f n z2)" "y = close_group 1 (snd z2) z3"
    unfolding ms_Grp_mem by auto
  note z = y1 y2 y3
  have g: "digit_led (take (length (snd z2) - length (snd z3)) (snd z2))"
    using n(1) z(3) unfolding number_like_def by fastforce
  from z(4) have "fst y = (1, take (length (snd z2) - length (snd z3)) (snd z2)) # fst z3"
    by (simp add: close_group_def)
  with g mk show ?thesis by (simp add: m_group_def mk_match_def)
qed

subsection \<open>Numbers read from digits are not negative\<close>

lemma is_decimal_not:
  assumes "is_decimal c"
  shows "c \<noteq> CHR '',''" "c \<noteq> CHR '' ''" "c \<noteq> CHR ''-''" "c \<noteq> CHR ''+''" "c \<noteq> CHR ''_''"
    "\<not> int_space c" "\<not> py_isspace c"
  using assms by (auto simp: is_decimal_def int_space_def py_isspace_def code_def Let_def)

lemma dropWhile_snoc: "\<not> P c \<Longrightarrow> \<exists>t. dropWhile P (xs @ [c]) = t @ [c]"
  by (induction xs) auto

lemma strip_by_head:
  assumes "\<not> sp c"
  shows "\<exists>t. strip_by sp (c # s) = c # t"
proof -
  from dropWhile_snoc [of sp c "rev s"] assms
  obtain t where t: "dropWhile sp (rev s @ [c]) = t @ [c]" by blast
  have "strip_by sp (c # s) = rev (dropWhile sp (rev s @ [c]))"
    using assms by (simp add: strip_by_def)
  also have "\<dots> = c # rev t" unfolding t by simp
  finally show ?thesis by blast
qed

lemma digit_groups_chars: "digit_groups s \<Longrightarrow> c \<in> set s \<Longrightarrow> is_decimal c \<or> c = CHR ''_''"
  by (induction s rule: digit_groups.induct) (auto split: if_splits)

lemma foldl_digits_nonneg:
  "0 \<le> a \<Longrightarrow> \<forall>c\<in>set s. 0 \<le> digit_val c \<Longrightarrow> 0 \<le> foldl (\<lambda>a c. 10 * a + digit_val c) a s"
  by (induction s arbitrary: a) simp_all

lemma dec_value_nonneg: "digit_groups s \<Longrightarrow> 0 \<le> dec_value s"
  unfolding dec_value_def
  by (rule foldl_digits_nonneg)
     (auto dest!: digit_groups_chars simp: is_decimal_def digit_val_def Let_def)

lemma strip_separators_head:
  "is_decimal c \<Longrightarrow> strip_separators (c # t) = c # strip_separators t"
  by (simp add: strip_separators_def replace_char_def is_decimal_not)

lemma py_int_nonneg:
  assumes "digit_led t" and "py_int (strip_separators t) = Some v"
  shows "0 \<le> v"
proof -
  from assms(1) obtain c t' where t: "t = c # t'" and c: "is_decimal c"
    by (auto simp: digit_led_def split: list.splits)
  from strip_by_head [of int_space c "strip_separators t'"] is_decimal_not(6) [OF c]
  obtain u where u: "strip_by int_space (c # strip_separators t') = c # u" by blast
  from assms(2) have "digit_groups (c # u)" "v = dec_value (c # u)"
    using is_decimal_not(3,4) [OF c]
    by (simp_all add: py_int_def t strip_separators_head [OF c] u split: if_splits)
  then show ?thesis by (simp add: dec_value_nonneg)
qed

subsection \<open>The patterns of the numbers\<close>

lemma groups_count_times: "groups_count (times n r) = n * groups_count r"
  by (induction n) simp_all

lemma groups_count_upto_times: "groups_count (upto_times n r) = n * groups_count r"
  by (induction n) simp_all

lemma groups_count_lit: "groups_count (lit w) = 0"
  by (induction w) (simp_all add: lit_def)

lemma groups_count_grouped_number: "groups_count sep = 0 \<Longrightarrow> groups_count (grouped_number sep) = 0"
  by (simp add: grouped_number_def Rep_def groups_count_times groups_count_upto_times)

lemma pair_pattern_ok:
  assumes "number_like n1" "groups_count n1 = 0" "number_like n2" "groups_count n2 = 0"
    and "groups_count a = 0" "groups_count b = 0" "groups_count c = 0"
  shows "pair_ok (seqs [Grp 1 n1, a, b, c, Grp 2 n2])"
  unfolding pair_ok_def
proof (intro allI impI)
  fix f s m
  assume "re_search f (seqs [Grp 1 n1, a, b, c, Grp 2 n2]) s = Some m"
  from pair_groups [OF assms this]
  show "digit_led (m_group m 1) \<and> digit_led (m_group m 2)" .
qed

lemma single_pattern_ok:
  assumes "number_like n" "groups_count n = 0" "groups_count a = 0" "groups_count b = 0"
  shows "single_ok (seqs [a, b, Grp 1 n])"
  unfolding single_ok_def
proof (intro allI impI)
  fix f s m
  assume "re_search f (seqs [a, b, Grp 1 n]) s = Some m"
  from single_group [OF assms this] show "digit_led (m_group m 1)" .
qed

lemma groups_count_Plus_Digit: "groups_count (Plus Digit) = 0"
  by (simp add: Plus_def)

lemma exp_patterns_ok:
  assumes "p \<in> set exp_patterns"
  shows "pair_ok p"
proof -
  have "pair_ok exp_pair_spaces"
    unfolding exp_pair_spaces_def
    by (rule pair_pattern_ok) (simp_all add: grouped_number_like groups_count_grouped_number)
  moreover
  have "pair_ok (seqs [Grp 1 (grouped_number (Lit CHR '','')), Star Space, Lit CHR ''/'', Star Space,
            Grp 2 (grouped_number (Lit CHR '',''))])"
    by (rule pair_pattern_ok) (simp_all add: grouped_number_like groups_count_grouped_number)
  moreover
  have "pair_ok (seqs [Grp 1 (Plus Digit), Star Space, Lit CHR ''/'', Star Space, Grp 2 (Plus Digit)])"
    by (rule pair_pattern_ok) (simp_all add: plus_digit_number_like groups_count_Plus_Digit)
  ultimately show ?thesis
    using assms unfolding exp_patterns_def by auto
qed

lemma counted_ok:
  assumes "groups_count label = 0"
  shows "single_ok (counted label)"
  unfolding counted_def
  by (rule single_pattern_ok)
     (simp_all add: assms grouped_number_like groups_count_grouped_number colon_space_def
        comma_space_def)

lemma kill_patterns_ok:
  assumes "p \<in> set kill_patterns"
  shows "single_ok p"
proof -
  have "groups_count kill_label = 0" by (simp add: kill_label_def groups_count_lit)
  moreover have "groups_count second_language = 0" by (simp add: second_language_def)
  moreover have "groups_count (lit ''\"kills\"'') = 0" by (rule groups_count_lit)
  ultimately show ?thesis
    using assms counted_ok unfolding kill_patterns_def by auto
qed

lemma death_patterns_ok:
  assumes "p \<in> set death_patterns"
  shows "single_ok p"
proof -
  have "groups_count death_label = 0" by (simp add: death_label_def groups_count_lit)
  moreover have "groups_count second_language = 0" by (simp add: second_language_def)
  moreover have "groups_count (lit ''\"deaths\"'') = 0" by (rule groups_count_lit)
  ultimately show ?thesis
    using assms counted_ok unfolding death_patterns_def by auto
qed

lemma single_exp_patterns_ok:
  assumes "p \<in> set single_exp_patterns"
  shows "single_ok p"
proof -
  have "single_ok (seqs [label, not_digits, Grp 1 (grouped_number (Opt (Lit CHR '','')))])"
    if "groups_count label = 0" for label
    by (rule single_pattern_ok)
       (simp_all add: that grouped_number_like groups_count_grouped_number not_digits_def)
  from this [of "lit ''Experience''"] this [of second_language] this [of "lit ''\"experience\"''"]
  show ?thesis
    using assms unfolding single_exp_patterns_def
    by (auto simp: groups_count_lit second_language_def simp del: seqs.simps)
qed

lemma exp_loop_nonneg:
  assumes "\<forall>p\<in>set ps. pair_ok p" and "exp_loop ps html pd = (pd', b)"
    and "0 \<le> experience pd" and "\<forall>x. max_experience pd = Some x \<longrightarrow> 0 \<le> x"
  shows "0 \<le> experience pd' \<and> (\<forall>x. max_experience pd' = Some x \<longrightarrow> 0 \<le> x)"
  using assms
proof (induction ps arbitrary: pd)
  case Nil
  then show ?case by simp
next
  case (Cons p ps)
  from Cons.prems(1) have ok: "pair_ok p" and rest: "\<forall>p\<in>set ps. pair_ok p" by simp_all
  show ?case
  proof (cases "re_search no_flags p html")
    case None
    with Cons.prems(2) have "exp_loop ps html pd = (pd', b)" by simp
    from Cons.IH [OF rest this Cons.prems(3) Cons.prems(4)] show ?thesis .
  next
    case (Some m)
    with ok have led: "digit_led (m_group m 1)" "digit_led (m_group m 2)"
      unfolding pair_ok_def by blast+
    show ?thesis
    proof (cases "py_int (strip_separators (m_group m 1))")
      case None
      with Some Cons.prems(2) have "exp_loop ps html pd = (pd', b)" by simp
      from Cons.IH [OF rest this Cons.prems(3) Cons.prems(4)] show ?thesis .
    next
      case cur: (Some cur)
      from py_int_nonneg [OF led(1) cur] have c0: "0 \<le> cur" .
      show ?thesis
      proof (cases "py_int (strip_separators (m_group m 2))")
        case None
        with Some cur Cons.prems(2) have l: "exp_loop ps html (pd\<lparr>experience := cur\<rparr>) = (pd', b)"
          by simp
        have "0 \<le> experience (pd\<lparr>experience := cur\<rparr>)" using c0 by simp
        moreover have "\<forall>x. max_experience (pd\<lparr>experience := cur\<rparr>) = Some x \<longrightarrow> 0 \<le> x"
          using Cons.prems(4) by simp
        ultimately show ?thesis using Cons.IH [OF rest l] by blast
      next
        case mx: (Some mx)
        from py_int_nonneg [OF led(2) mx] have m0: "0 \<le> mx" .
        from Some cur mx Cons.prems(2)
        have "pd' = pd\<lparr>experience := cur, max_experience := Some mx\<rparr>" by simp
        with c0 m0 show ?thesis by simp
      qed
    qed
  qed
qed

lemma number_loop_nonneg:
  assumes "\<forall>p\<in>set ps. single_ok p" and "number_loop strip_separators ps html old = Some v"
    and "0 \<le> old"
  shows "0 \<le> v"
  using assms
proof (induction ps)
  case Nil
  then show ?case by simp
next
  case (Cons p ps)
  from Cons.prems(1) have ok: "single_ok p" and rest: "\<forall>p\<in>set ps. single_ok p" by simp_all
  show ?case
  proof (cases "re_search IGNORECASE p html")
    case None
    with Cons.prems(2) have "number_loop strip_separators ps html old = Some v" by simp
    from Cons.IH [OF rest this Cons.prems(3)] show ?thesis .
  next
    case (Some m)
    with ok have led: "digit_led (m_group m 1)" unfolding single_ok_def by blast
    from Some Cons.prems(2) have "py_int (strip_separators (m_group m 1)) = Some v" by simp
    from py_int_nonneg [OF led this] show ?thesis .
  qed
qed

lemma parse_experience_nonneg:
  assumes "parse_experience html pd = Some pd'"
    and "0 \<le> experience pd" and "max_experience pd = None"
  shows "0 \<le> experience pd'" and "max_experience pd' = Some x \<Longrightarrow> 0 \<le> x"
proof -
  obtain pd1 found where l: "exp_loop exp_patterns html pd = (pd1, found)"
    by (cases "exp_loop exp_patterns html pd")
  from exp_loop_nonneg [OF _ l assms(2)] exp_patterns_ok assms(3)
  have n1: "0 \<le> experience pd1" "\<forall>x. max_experience pd1 = Some x \<longrightarrow> 0 \<le> x"
    by auto
  show "0 \<le> experience pd'"
  proof (cases found)
    case True
    with assms(1) l n1 show ?thesis by (simp add: parse_experience_def)
  next
    case False
    with assms(1) l obtain e where
      e: "number_loop strip_separators single_exp_patterns html (experience pd1) = Some e"
      and "pd' = pd1\<lparr>experience := e\<rparr>"
      by (auto simp: parse_experience_def)
    with number_loop_nonneg [OF _ e n1(1)] single_exp_patterns_ok show ?thesis by auto
  qed
  show "max_experience pd' = Some x \<Longrightarrow> 0 \<le> x"
    using assms(1) l n1 by (auto simp: parse_experience_def split: if_splits)
qed

text \<open>The numbers of a record that the function returns are not negative.\<close>

lemma record_nonneg:
  assumes "parse_player_data cfg sp html u = Some r"
  shows "0 \<le> experience r" and "max_experience r = Some x \<Longrightarrow> 0 \<le> x"
    and "0 \<le> kills r" and "0 \<le> deaths r"
proof -
  from parse_fields_record [OF parse_player_data_SomeD(1) [OF assms]]
  obtain pd1 where
    e: "parse_experience html
          ((initial_player_data u)\<lparr>is_online := activity_status sp,
             status_indicator := (if activity_status sp then Green else Red)\<rparr>) = Some pd1"
    and f: "experience r = experience pd1" "max_experience r = max_experience pd1"
    and k: "number_loop strip_separators kill_patterns html 0 = Some (kills r)"
    and d: "number_loop strip_separators death_patterns html 0 = Some (deaths r)"
    by blast
  from parse_experience_nonneg [OF e] f
  show "0 \<le> experience r" and "max_experience r = Some x \<Longrightarrow> 0 \<le> x"
    by (simp_all add: initial_player_data_def)
  from number_loop_nonneg [OF _ k] kill_patterns_ok show "0 \<le> kills r" by auto
  from number_loop_nonneg [OF _ d] death_patterns_ok show "0 \<le> deaths r" by auto
qed

subsection \<open>The first three digits\<close>

lemma re_search_extend:
  assumes "re_search f (Seq a b) s = Some m"
    and "ms f g (m_groups m, m_rest m) = w # ws"
  shows "\<exists>m'. re_search f (Seq a (Seq b g)) s = Some m' \<and> m_groups m' = fst w \<and> m_rest m' = snd w"
  using assms
proof (induction s)
  case Nil
  have flat: "ms f (Seq a (Seq b g)) ([], []) = concat (map (ms f g) (ms f (Seq a b) ([], [])))"
    unfolding ms_Seq_assoc [symmetric] by (rule ms.simps(9))
  from Nil.prems(1) obtain y ys where y: "ms f (Seq a b) ([], []) = y # ys" "m = mk_match [] y"
    by (auto simp del: ms.simps split: list.splits)
  from y(2) have "(m_groups m, m_rest m) = y" by (simp add: mk_match_def)
  with Nil.prems(2) have g: "ms f g y = w # ws" by simp
  from flat y(1) g have "ms f (Seq a (Seq b g)) ([], []) = w # (ws @ concat (map (ms f g) ys))"
    by (simp del: ms.simps)
  then show ?case by (simp add: mk_match_def del: ms.simps)
next
  case (Cons c s)
  have flat: "ms f (Seq a (Seq b g)) ([], c # s) = concat (map (ms f g) (ms f (Seq a b) ([], c # s)))"
    unfolding ms_Seq_assoc [symmetric] by (rule ms.simps(9))
  show ?case
  proof (cases "ms f (Seq a b) ([], c # s)")
    case Nil
    with Cons.prems(1) have "re_search f (Seq a b) s = Some m" by (simp del: ms.simps)
    from Cons.IH [OF this Cons.prems(2)] obtain m' where
      "re_search f (Seq a (Seq b g)) s = Some m'" "m_groups m' = fst w" "m_rest m' = snd w"
      by blast
    moreover from flat Nil have "ms f (Seq a (Seq b g)) ([], c # s) = []" by (simp del: ms.simps)
    ultimately show ?thesis by (simp del: ms.simps)
  next
    case (Cons y ys)
    with Cons.prems(1) have "m = mk_match (c # s) y" by (simp del: ms.simps)
    then have "(m_groups m, m_rest m) = y" by (simp add: mk_match_def)
    with Cons.prems(2) have g: "ms f g y = w # ws" by simp
    from flat Cons g have "ms f (Seq a (Seq b g)) ([], c # s) = w # (ws @ concat (map (ms f g) ys))"
      by (simp del: ms.simps)
    then show ?thesis by (simp add: mk_match_def del: ms.simps)
  qed
qed

lemma decimal_case:
  assumes "is_decimal c"
  shows "to_lower c = c" "to_upper c = c"
  using assms by (auto simp: is_decimal_def to_lower_def to_upper_def is_upper_def is_lower_def Let_def)

lemma decimal_not_separator:
  assumes "is_decimal c"
  shows "\<not> cls_ok IGNORECASE [CChar CHR '','', CSpace] c"
  using assms decimal_case [OF assms] is_decimal_not [OF assms]
  by (simp add: cls_ok_def IGNORECASE_def in_items_def)

lemma three_digits_first:
  assumes "is_decimal d1" "is_decimal d2" "is_decimal d3" "is_decimal d4"
  shows "\<exists>ws. ms IGNORECASE (Grp 1 (grouped_number comma_space)) (cs, d1 # d2 # d3 # d4 # rest) =
           ((1, [d1, d2, d3]) # cs, d4 # rest) # ws"
  using assms decimal_not_separator [OF assms(4)]
  by (simp add: grouped_number_def Rep_def comma_space_def one_char_def close_group_def
      eval_nat_numeral)

lemma py_int_three_digits:
  assumes "is_decimal d1" "is_decimal d2" "is_decimal d3"
  shows "py_int (strip_separators [d1, d2, d3]) = Some (100 * digit_val d1 + 10 * digit_val d2 + digit_val d3)"
  using is_decimal_not [OF assms(1)] is_decimal_not [OF assms(2)] is_decimal_not [OF assms(3)] assms
  by (simp add: py_int_def strip_separators_def replace_char_def strip_by_def dec_value_def)

lemma first_count_truncated:
  assumes a: "after_label label html = Some (d1 # d2 # d3 # d4 # rest)"
    and d: "is_decimal d1" "is_decimal d2" "is_decimal d3" "is_decimal d4"
  shows "number_loop strip_separators (counted label # ps) html old =
           Some (100 * digit_val d1 + 10 * digit_val d2 + digit_val d3)"
proof -
  from a obtain m where m: "re_search IGNORECASE (Seq label colon_space) html = Some m"
    and r: "m_rest m = d1 # d2 # d3 # d4 # rest"
    by (auto simp: after_label_def)
  from three_digits_first [OF d, of "m_groups m" rest] r obtain ws where
    "ms IGNORECASE (Grp 1 (grouped_number comma_space)) (m_groups m, m_rest m) =
       ((1, [d1, d2, d3]) # m_groups m, d4 # rest) # ws"
    by auto
  from re_search_extend [OF m this] obtain m' where
    m': "re_search IGNORECASE (Seq label (Seq colon_space (Grp 1 (grouped_number comma_space)))) html = Some m'"
    and g: "m_groups m' = (1, [d1, d2, d3]) # m_groups m"
    by auto
  from g have "m_group m' 1 = [d1, d2, d3]" by (simp add: m_group_def)
  with m' py_int_three_digits [OF d(1-3)] show ?thesis by (simp add: counted_def)
qed

section \<open>Ranks\<close>

lemma emoji_index_names:
  "map emoji_index rank_progression = [1, 2, 3, 4, 5, 6, 7, 8, 9, 10, 11, 12, 13, 14, 15, 16, 17, 18, 19, 20, 21, 22, 23, 24, 25, 26, 27, 28, 29, 30, 31]"
  by code_simp

lemma emoji_index_Legend: "emoji_index (''Legend '' @ n) = 31"
  by (simp add: emoji_index_def startswith_def)

lemma emoji_index_each:
  "emoji_index ''Recruit'' = 1"
  "emoji_index ''Private'' = 2"
  "emoji_index ''Gefreiter'' = 3"
  "emoji_index ''Corporal'' = 4"
  "emoji_index ''Master Corporal'' = 5"
  "emoji_index ''Sergeant'' = 6"
  "emoji_index ''Staff Sergeant'' = 7"
  "emoji_index ''Master Sergeant'' = 8"
  "emoji_index ''First Sergeant'' = 9"
  "emoji_index ''Sergeant Major'' = 10"
  "emoji_index ''Warrant Officer 1'' = 11"
  "emoji_index ''Warrant Officer 2'' = 12"
  "emoji_index ''Warrant Officer 3'' = 13"
  "emoji_index ''Warrant Officer 4'' = 14"
  "emoji_index ''Warrant Officer 5'' = 15"
  "emoji_index ''Third Lieutenant'' = 16"
  "emoji_index ''Second Lieutenant'' = 17"
  "emoji_index ''First Lieutenant'' = 18"
  "emoji_index ''Captain'' = 19"
  "emoji_index ''Major'' = 20"
  "emoji_index ''Lieutenant Colonel'' = 21"
  "emoji_index ''Colonel'' = 22"
  "emoji_index ''Brigadier'' = 23"
  "emoji_index ''Major General'' = 24"
  "emoji_index ''Lieutenant General'' = 25"
  "emoji_index ''General'' = 26"
  "emoji_index ''Marshal'' = 27"
  "emoji_index ''Field Marshal'' = 28"
  "emoji_index ''Commander'' = 29"
  "emoji_index ''Generalissimo'' = 30"
  using emoji_index_names unfolding rank_progression_def rank_experience_map_def by simp_all

lemma tier_eq: "tier e =
     (if 1800000 \<le> e then 31
      else if 1600000 \<le> e then 30
      else if 1400000 \<le> e then 29
      else if 1255000 \<le> e then 28
      else if 1122000 \<le> e then 27
      else if 1000000 \<le> e then 26
      else if 889000 \<le> e then 25
      else if 787000 \<le> e then 24
      else if 695000 \<le> e then 23
      else if 606000 \<le> e then 22
      else if 527000 \<le> e then 21
      else if 455000 \<le> e then 20
      else if 390000 \<le> e then 19
      else if 332000 \<le> e then 18
      else if 280000 \<le> e then 17
      else if 233000 \<le> e then 16
      else if 192000 \<le> e then 15
      else if 156000 \<le> e then 14
      else if 125000 \<le> e then 13
      else if 98000 \<le> e then 12
      else if 76000 \<le> e then 11
      else if 57000 \<le> e then 10
      else if 41000 \<le> e then 9
      else if 29000 \<le> e then 8
      else if 20000 \<le> e then 7
      else if 12300 \<le> e then 6
      else if 7700 \<le> e then 5
      else if 4400 \<le> e then 4
      else if 2200 \<le> e then 3
      else if 1000 \<le> e then 2
      else 1)"
proof (cases "1800000 \<le> e")
  case True
  then show ?thesis
    by (simp add: tier_def rank_by_experience_def emoji_index_def startswith_def)
next
  case False
  then show ?thesis
    by (simp add: tier_def rank_by_experience_def emoji_index_each)
qed

lemma tier_mono: "e1 \<le> e2 \<Longrightarrow> tier e1 \<le> tier e2"
  unfolding tier_eq by (simp split: if_splits)

section \<open>The ratio\<close>

lemma digit_char_decimal: "n < 10 \<Longrightarrow> is_decimal (digit_char n)"
proof -
  assume "n < 10"
  then have "n \<in> {0, 1, 2, 3, 4, 5, 6, 7, 8, 9}" by auto
  then show ?thesis
    by (auto simp: digit_char_def is_decimal_def code_def)
qed

lemma show_nat_digits: "show_nat n \<noteq> [] \<and> list_all is_decimal (show_nat n)"
proof (induction n rule: show_nat.induct)
  case (1 n)
  show ?case
  proof (cases "n < 10")
    case True
    then show ?thesis by (simp add: digit_char_decimal)
  next
    case False
    with 1 show ?thesis by (simp add: digit_char_decimal)
  qed
qed

lemma fixed2_two_decimals: "two_decimals (fixed2 n)"
proof -
  have "nat (n mod 100 div 10) < 10" "nat (n mod 10) < 10" by auto
  then show ?thesis
    using show_nat_digits [of "nat (n div 100)"]
    by (simp add: two_decimals_def fixed2_def digit_char_decimal del: show_nat.simps)
qed

lemma true_divide_sign:
  "0 \<le> k \<Longrightarrow> 0 \<le> d \<Longrightarrow> true_divide k d = Some x \<Longrightarrow> \<exists>m e. x = Float False m e"
  by (auto simp: true_divide_def Let_def split: if_splits)

lemma rne_cases:
  assumes "0 \<le> a" "0 < b"
  shows "(rne a b = a div b \<and> 2 * (a mod b) \<le> b) \<or> (rne a b = a div b + 1 \<and> b \<le> 2 * (a mod b))"
  by (auto simp: rne_def Let_def)

lemma rne_int_bound:
  assumes "0 \<le> a" "0 < b"
  shows "\<bar>2 * (b * rne a b - a)\<bar> \<le> b" and "0 \<le> rne a b"
proof -
  define q r where "q = a div b" and "r = a mod b"
  have a: "a = b * q + r" by (simp add: q_def r_def)
  have r: "0 \<le> r" "r < b" using assms by (simp_all add: r_def)
  have q: "0 \<le> q" using assms by (simp add: q_def pos_imp_zdiv_nonneg_iff)
  from rne_cases [OF assms]
  consider "rne a b = q" "2 * r \<le> b" | "rne a b = q + 1" "b \<le> 2 * r"
    unfolding q_def r_def by blast
  then show "\<bar>2 * (b * rne a b - a)\<bar> \<le> b"
  proof cases
    case 1
    have "b * rne a b - a = - r" unfolding 1(1) by (subst a) simp
    with 1(2) r show ?thesis by simp
  next
    case 2
    have "b * rne a b - a = b - r" unfolding 2(1) by (subst a) (simp add: algebra_simps)
    with 2(2) r show ?thesis by simp
  qed
  from rne_cases [OF assms] q show "0 \<le> rne a b" unfolding q_def by auto
qed

lemma rne_bound:
  assumes "0 \<le> a" "0 < b"
  shows "\<bar>real_of_int (rne a b) - real_of_int a / real_of_int b\<bar> \<le> 1 / 2"
proof -
  let ?d = "real_of_int b * real_of_int (rne a b) - real_of_int a"
  from rne_int_bound(1) [OF assms]
  have i: "2 * (b * rne a b - a) \<le> b" "- b \<le> 2 * (b * rne a b - a)"
    by linarith+
  have "real_of_int (2 * (b * rne a b - a)) \<le> real_of_int b"
    using i(1) by (simp only: of_int_le_iff)
  then have u: "2 * ?d \<le> real_of_int b" by simp
  have "real_of_int (- b) \<le> real_of_int (2 * (b * rne a b - a))"
    using i(2) by (simp only: of_int_le_iff)
  then have l: "- real_of_int b \<le> 2 * ?d" by simp
  from u l have d: "2 * \<bar>?d\<bar> \<le> real_of_int b"
    by (simp add: abs_if)
  have b: "0 < real_of_int b" using assms(2) by simp
  have "real_of_int (rne a b) - real_of_int a / real_of_int b = ?d / real_of_int b"
    using b by (simp add: field_simps)
  then have "\<bar>real_of_int (rne a b) - real_of_int a / real_of_int b\<bar> = \<bar>?d\<bar> / real_of_int b"
    using b by (simp add: abs_divide del: of_int_diff)
  also have "\<dots> \<le> (real_of_int b / 2) / real_of_int b"
    using d b by (intro divide_right_mono) simp_all
  also have "\<dots> = 1 / 2" using b by simp
  finally show ?thesis .
qed


lemma pow2_nonneg: "0 \<le> e \<Longrightarrow> pow2 e = real_of_int (2 ^ nat e)"
  by (simp add: pow2_def powr_realpow [symmetric])

lemma pow2_neg: "e < 0 \<Longrightarrow> pow2 e = 1 / real_of_int (2 ^ nat (- e))"
proof -
  assume "e < 0"
  then have "pow2 e = 2 powr (- real_of_int (- e))" by (simp add: pow2_def)
  also have "\<dots> = 1 / 2 powr real_of_int (- e)" by (simp only: powr_minus_divide)
  also have "2 powr real_of_int (- e) = real_of_int (2 ^ nat (- e))"
    using \<open>e < 0\<close> pow2_nonneg [of "- e"] by (simp add: pow2_def)
  finally show ?thesis .
qed

lemma pow2_pos: "0 < pow2 e"
  by (simp add: pow2_def)

lemma pow2_add: "pow2 (a + b) = pow2 a * pow2 b"
  by (simp add: pow2_def powr_add)

lemma pow2_mono: "a \<le> b \<Longrightarrow> pow2 a \<le> pow2 b"
  by (simp add: pow2_def)

text \<open>The rounded scaled quotient is within half a unit of the quotient.\<close>

lemma scaled_bound:
  assumes "0 \<le> a" "0 < b"
  shows "\<bar>real_of_int (scaled a b e) * pow2 e - real_of_int a / real_of_int b\<bar> \<le> pow2 e / 2"
    and "0 \<le> scaled a b e"
proof -
  have b: "0 < real_of_int b" using assms(2) by simp
  show "0 \<le> scaled a b e"
    using assms by (simp add: scaled_def rne_int_bound(2))
  show "\<bar>real_of_int (scaled a b e) * pow2 e - real_of_int a / real_of_int b\<bar> \<le> pow2 e / 2"
  proof (cases "0 \<le> e")
    case True
    let ?p = "2 ^ nat e :: int"
    have p: "0 < real_of_int ?p" by simp
    have s: "scaled a b e = rne a (b * ?p)" using True by (simp add: scaled_def)
    from rne_bound [of a "b * ?p"] assms
    have "\<bar>real_of_int (rne a (b * ?p)) - real_of_int a / real_of_int (b * ?p)\<bar> \<le> 1 / 2"
      by simp
    then have "\<bar>real_of_int (rne a (b * ?p)) - real_of_int a / real_of_int (b * ?p)\<bar> * real_of_int ?p
        \<le> 1 / 2 * real_of_int ?p"
      using p by (intro mult_right_mono) simp_all
    moreover have "\<bar>real_of_int (rne a (b * ?p)) - real_of_int a / real_of_int (b * ?p)\<bar> * real_of_int ?p
        = \<bar>real_of_int (rne a (b * ?p)) * real_of_int ?p - real_of_int a / real_of_int b\<bar>"
    proof -
      have "\<bar>real_of_int (rne a (b * ?p)) - real_of_int a / real_of_int (b * ?p)\<bar> * real_of_int ?p
          = \<bar>(real_of_int (rne a (b * ?p)) - real_of_int a / real_of_int (b * ?p)) * real_of_int ?p\<bar>"
        using p by (simp add: abs_mult del: of_int_power of_int_mult)
      also have "(real_of_int (rne a (b * ?p)) - real_of_int a / real_of_int (b * ?p)) * real_of_int ?p
          = real_of_int (rne a (b * ?p)) * real_of_int ?p - real_of_int a / real_of_int b"
        using p b by (simp add: field_simps)
      finally show ?thesis .
    qed
    ultimately show ?thesis
      using True by (simp add: s pow2_nonneg del: of_int_power of_int_mult)
  next
    case False
    let ?p = "2 ^ nat (- e) :: int"
    have p: "0 < real_of_int ?p" by simp
    have s: "scaled a b e = rne (a * ?p) b" using False by (simp add: scaled_def)
    from rne_bound [of "a * ?p" b] assms
    have "\<bar>real_of_int (rne (a * ?p) b) - real_of_int (a * ?p) / real_of_int b\<bar> \<le> 1 / 2"
      by simp
    then have "\<bar>real_of_int (rne (a * ?p) b) - real_of_int (a * ?p) / real_of_int b\<bar> / real_of_int ?p
        \<le> (1 / 2) / real_of_int ?p"
      using p by (intro divide_right_mono) simp_all
    moreover have "\<bar>real_of_int (rne (a * ?p) b) - real_of_int (a * ?p) / real_of_int b\<bar> / real_of_int ?p
        = \<bar>real_of_int (rne (a * ?p) b) / real_of_int ?p - real_of_int a / real_of_int b\<bar>"
    proof -
      have "\<bar>real_of_int (rne (a * ?p) b) - real_of_int (a * ?p) / real_of_int b\<bar> / real_of_int ?p
          = \<bar>(real_of_int (rne (a * ?p) b) - real_of_int (a * ?p) / real_of_int b) / real_of_int ?p\<bar>"
        using p by (simp add: abs_divide del: of_int_power of_int_mult)
      also have "(real_of_int (rne (a * ?p) b) - real_of_int (a * ?p) / real_of_int b) / real_of_int ?p
          = real_of_int (rne (a * ?p) b) / real_of_int ?p - real_of_int a / real_of_int b"
        using p b by (simp add: field_simps)
      finally show ?thesis .
    qed
    ultimately show ?thesis
      using False by (simp add: s pow2_neg del: of_int_power of_int_mult)
  qed
qed


text \<open>The number of binary digits brackets the number between two powers of two.\<close>

lemma bits_bounds: "0 < n \<Longrightarrow> 0 < bits n \<and> 2 ^ nat (bits n - 1) \<le> n \<and> n < 2 ^ nat (bits n)"
proof (induction n rule: bits.induct)
  case (1 n)
  show ?case
  proof (cases "n = 1")
    case True
    have "bits 1 = 1" by (simp add: bits.simps [of 1] bits.simps [of 0])
    with True show ?thesis by simp
  next
    case False
    with 1 have h: "0 < n div 2" by simp
    from "1.IH" h "1.prems" have
      ih: "0 < bits (n div 2)" "2 ^ nat (bits (n div 2) - 1) \<le> n div 2" "n div 2 < 2 ^ nat (bits (n div 2))"
      by simp_all
    have b: "bits n = bits (n div 2) + 1" using "1.prems" by (simp add: bits.simps [of n])
    have e: "nat (bits (n div 2)) = Suc (nat (bits (n div 2) - 1))" using ih(1) by simp
    have "2 ^ nat (bits n - 1) = (2::int) * 2 ^ nat (bits (n div 2) - 1)"
      unfolding b using e by simp
    also have "\<dots> \<le> 2 * (n div 2)" using ih(2) by simp
    also have "\<dots> \<le> n" by simp
    finally have lo: "2 ^ nat (bits n - 1) \<le> n" .
    have "n < 2 * (n div 2 + 1)" by simp
    also have "\<dots> \<le> 2 * 2 ^ nat (bits (n div 2))" using ih(3) by simp
    also have "\<dots> = 2 ^ nat (bits n)" unfolding b using ih(1) by (simp add: nat_add_distrib)
    finally have hi: "n < 2 ^ nat (bits n)" .
    from ih(1) b lo hi show ?thesis by simp
  qed
qed

lemma bits_pow2:
  assumes "0 < n"
  shows "pow2 (bits n - 1) \<le> real_of_int n" and "real_of_int n < pow2 (bits n)"
proof -
  from bits_bounds [OF assms]
  have b: "0 < bits n" "2 ^ nat (bits n - 1) \<le> n" "n < 2 ^ nat (bits n)" by simp_all
  have "real_of_int (2 ^ nat (bits n - 1)) \<le> real_of_int n"
    using b(2) by (simp only: of_int_le_iff)
  then show "pow2 (bits n - 1) \<le> real_of_int n"
    using b(1) by (simp add: pow2_nonneg)
  have "real_of_int n < real_of_int (2 ^ nat (bits n))"
    using b(3) by (simp only: of_int_less_iff)
  then show "real_of_int n < pow2 (bits n)"
    using b(1) by (simp add: pow2_nonneg)
qed

lemma pow2_le_iff:
  assumes "0 < a" "0 < b"
  shows "(if 0 \<le> p then b * 2 ^ nat p \<le> a else b \<le> a * 2 ^ nat (- p))
     \<longleftrightarrow> pow2 p \<le> real_of_int a / real_of_int b"
proof -
  have ra: "0 < real_of_int a" and rb: "0 < real_of_int b" using assms by simp_all
  show ?thesis
  proof (cases "0 \<le> p")
    case True
    define P where "P = real_of_int (2 ^ nat p)"
    have "b * 2 ^ nat p \<le> a \<longleftrightarrow> real_of_int (b * 2 ^ nat p) \<le> real_of_int a"
      by (simp only: of_int_le_iff)
    also have "real_of_int (b * 2 ^ nat p) = P * real_of_int b"
      by (simp add: P_def)
    also have "P * real_of_int b \<le> real_of_int a \<longleftrightarrow> P \<le> real_of_int a / real_of_int b"
      using rb by (simp only: pos_le_divide_eq)
    finally show ?thesis using True by (simp add: pow2_nonneg P_def)
  next
    case False
    define P where "P = real_of_int (2 ^ nat (- p))"
    have P: "0 < P" by (simp add: P_def)
    have "b \<le> a * 2 ^ nat (- p) \<longleftrightarrow> real_of_int b \<le> real_of_int (a * 2 ^ nat (- p))"
      by (simp only: of_int_le_iff)
    also have "real_of_int (a * 2 ^ nat (- p)) = real_of_int a * P"
      by (simp add: P_def)
    also have "real_of_int b \<le> real_of_int a * P \<longleftrightarrow> 1 / P \<le> real_of_int a / real_of_int b"
      using rb P by (simp add: field_simps)
    finally show ?thesis using False by (simp add: pow2_neg P_def)
  qed
qed

lemma floor_log2_le:
  assumes "0 < a" "0 < b"
  shows "pow2 (floor_log2 a b) \<le> real_of_int a / real_of_int b"
proof -
  define p where "p = bits a - bits b"
  have fl: "floor_log2 a b = (if pow2 p \<le> real_of_int a / real_of_int b then p else p - 1)"
    unfolding pow2_le_iff [OF assms, symmetric] by (simp add: floor_log2_def p_def Let_def)
  show ?thesis
  proof (cases "pow2 p \<le> real_of_int a / real_of_int b")
    case True
    with fl have "floor_log2 a b = p" by simp
    with True show ?thesis by simp
  next
    case False
    with fl have f: "floor_log2 a b = p - 1" by simp
    have rb: "0 < real_of_int b" using assms(2) by simp
    have "pow2 (p - 1) * real_of_int b \<le> pow2 (p - 1) * pow2 (bits b)"
      using bits_pow2(2) [OF assms(2)] pow2_pos [of "p - 1"] by (intro mult_left_mono) simp_all
    also have "\<dots> = pow2 (bits a - 1)"
      unfolding pow2_add [symmetric] by (simp add: p_def)
    also have "\<dots> \<le> real_of_int a" by (rule bits_pow2(1) [OF assms(1)])
    finally have "pow2 (p - 1) \<le> real_of_int a / real_of_int b"
      using rb by (simp add: field_simps)
    with f show ?thesis by simp
  qed
qed

text \<open>The double of a quotient of naturals differs from the quotient by at most its
  \<open>2 ^ 53\<close>-th part, or by \<open>1 / 2 ^ 1075\<close> when that is more.\<close>

lemma true_divide_bound:
  assumes "0 \<le> k" "0 < d" "true_divide k d = Some x"
  shows "\<exists>m e. x = Float False m e \<and> 0 \<le> m
     \<and> \<bar>real_of_int m * pow2 e - real_of_int k / real_of_int d\<bar>
         \<le> max (real_of_int k / real_of_int d / 2 ^ 53) (1 / 2 ^ 1075)"
proof (cases "k = 0")
  case True
  with assms have "x = Float False 0 0" by (simp add: true_divide_def)
  moreover have "(0::real) \<le> max (real_of_int k / real_of_int d / 2 ^ 53) (1 / 2 ^ 1075)"
    by (rule max.coboundedI2) (simp del: power_numeral)
  ultimately show ?thesis using True by (intro exI [of _ 0]) simp
next
  case False
  with assms(1) have k: "0 < k" by simp
  define e where "e = max (floor_log2 k d - 52) (- 1074)"
  define m where "m = scaled k d e"
  from assms k have x: "x = Float False m e"
    by (auto simp: true_divide_def Let_def e_def m_def split: if_splits)
  note sb = scaled_bound [OF assms(1,2), of e, folded m_def]
  have "pow2 e / 2 \<le> max (real_of_int k / real_of_int d / 2 ^ 53) (1 / 2 ^ 1075)"
  proof (cases "- 1074 \<le> floor_log2 k d - 52")
    case True
    then have "e = floor_log2 k d + (- 52)" by (simp add: e_def)
    then have "pow2 e = pow2 (floor_log2 k d) * pow2 (- 52)" by (simp only: pow2_add)
    also have "pow2 (- 52) = 1 / 2 ^ 52" by (simp add: pow2_neg)
    finally have "pow2 e / 2 = pow2 (floor_log2 k d) / 2 ^ 53" by simp
    also have "\<dots> \<le> real_of_int k / real_of_int d / 2 ^ 53"
      using floor_log2_le [OF k assms(2)] by (intro divide_right_mono) simp_all
    finally show ?thesis by simp
  next
    case False
    then have "e = - 1074" by (simp add: e_def)
    then have "pow2 e / 2 = 1 / 2 ^ 1075" by (simp add: pow2_neg)
    then show ?thesis by simp
  qed
  with sb(1) have "\<bar>real_of_int m * pow2 e - real_of_int k / real_of_int d\<bar>
     \<le> max (real_of_int k / real_of_int d / 2 ^ 53) (1 / 2 ^ 1075)"
    by linarith
  with x sb(2) show ?thesis by blast
qed

text \<open>The hundredths that are written differ from a hundred times the double by at most a
  half.\<close>

lemma hundredths_bound:
  assumes "0 \<le> m"
  shows "\<bar>real_of_int (hundredths m e) - 100 * (real_of_int m * pow2 e)\<bar> \<le> 1 / 2"
    and "0 \<le> hundredths m e"
proof -
  show "0 \<le> hundredths m e"
    using assms by (simp add: hundredths_def rne_int_bound(2))
  show "\<bar>real_of_int (hundredths m e) - 100 * (real_of_int m * pow2 e)\<bar> \<le> 1 / 2"
  proof (cases "0 \<le> e")
    case True
    then show ?thesis by (simp add: hundredths_def pow2_nonneg)
  next
    case False
    from rne_bound [of "m * 100" "2 ^ nat (- e)"] assms
    have "\<bar>real_of_int (rne (m * 100) (2 ^ nat (- e))) - real_of_int (m * 100) / real_of_int (2 ^ nat (- e))\<bar> \<le> 1 / 2"
      by simp
    moreover have "real_of_int (m * 100) / real_of_int (2 ^ nat (- e)) = 100 * (real_of_int m * pow2 e)"
      using False by (simp add: pow2_neg)
    ultimately show ?thesis using False by (simp add: hundredths_def)
  qed
qed

text \<open>Together: the hundredths that are written, against the quotient itself.\<close>

lemma kd_ratio_of_bound:
  assumes "0 \<le> k" "0 < d" "kd_ratio_of k d = Some s"
  shows "\<exists>n. 0 \<le> n \<and> s = fixed2 n
     \<and> \<bar>real_of_int n / 100 - real_of_int k / real_of_int d\<bar>
         \<le> 1 / 200 + max (real_of_int k / real_of_int d / 2 ^ 53) (1 / 2 ^ 1075)"
proof -
  from assms obtain x where x: "true_divide k d = Some x" "s = format_2f x"
    by (auto simp: kd_ratio_of_def)
  from true_divide_bound [OF assms(1,2) x(1)] obtain m e where me: "x = Float False m e" "0 \<le> m"
    "\<bar>real_of_int m * pow2 e - real_of_int k / real_of_int d\<bar>
       \<le> max (real_of_int k / real_of_int d / 2 ^ 53) (1 / 2 ^ 1075)"
    by blast
  note hb = hundredths_bound [OF me(2), of e]
  from hb(1) have "\<bar>real_of_int (hundredths m e) / 100 - real_of_int m * pow2 e\<bar> \<le> 1 / 200"
    by linarith
  with me(3) have "\<bar>real_of_int (hundredths m e) / 100 - real_of_int k / real_of_int d\<bar>
       \<le> 1 / 200 + max (real_of_int k / real_of_int d / 2 ^ 53) (1 / 2 ^ 1075)"
    by linarith
  moreover from x(2) me(1) have "s = fixed2 (hundredths m e)" by simp
  ultimately show ?thesis using hb(2) by blast
qed

text \<open>What is written reads back as the hundredths.\<close>

lemma digit_char_val: "n < 10 \<Longrightarrow> digit_val (digit_char n) = int n \<and> digit_char n \<noteq> CHR ''_''
   \<and> digit_char n \<noteq> CHR ''.''"
proof -
  assume "n < 10"
  then have "n \<in> {0, 1, 2, 3, 4, 5, 6, 7, 8, 9}" by auto
  then show ?thesis
    by (auto simp: digit_char_def digit_val_def code_def)
qed

lemma dec_value_snoc:
  "n < 10 \<Longrightarrow> dec_value (s @ [digit_char n]) = 10 * dec_value s + int n"
  by (simp add: dec_value_def digit_char_val)

lemma dec_value_single: "n < 10 \<Longrightarrow> dec_value [digit_char n] = int n"
  using dec_value_snoc [of n "[]"] by (simp add: dec_value_def)

lemma dec_value_show_nat: "dec_value (show_nat n) = int n"
proof (induction n rule: show_nat.induct)
  case (1 n)
  show ?case
  proof (cases "n < 10")
    case True
    then have "show_nat n = [digit_char n]"
      by (subst show_nat.simps) (simp del: show_nat.simps)
    with True show ?thesis by (simp only: dec_value_single)
  next
    case False
    then have "show_nat n = show_nat (n div 10) @ [digit_char (n mod 10)]"
      by (subst show_nat.simps) (simp del: show_nat.simps)
    moreover have "n mod 10 < 10" by simp
    ultimately have "dec_value (show_nat n) = 10 * dec_value (show_nat (n div 10)) + int (n mod 10)"
      by (simp only: dec_value_snoc)
    also from 1 False have "dec_value (show_nat (n div 10)) = int (n div 10)" by blast
    also have "10 * int (n div 10) + int (n mod 10) = int (10 * (n div 10) + n mod 10)"
      by (simp only: of_nat_add of_nat_mult of_nat_numeral)
    also have "10 * (n div 10) + n mod 10 = n" by (rule mult_div_mod_eq)
    finally show ?thesis .
  qed
qed

lemma show_nat_no_point: "c \<in> set (show_nat n) \<Longrightarrow> c \<noteq> CHR ''.''"
proof -
  assume "c \<in> set (show_nat n)"
  with show_nat_digits [of n] have "is_decimal c" by (simp add: list_all_iff)
  then show ?thesis by (auto simp: is_decimal_def code_def Let_def)
qed

lemma decimal_value_fixed2:
  assumes "0 \<le> n"
  shows "decimal_value (fixed2 n) = real_of_int n / 100"
proof -
  let ?w = "show_nat (nat (n div 100))"
  let ?a = "nat (n mod 100 div 10)" and ?b = "nat (n mod 10)"
  have ab: "?a < 10" "?b < 10" by auto
  have tw: "takeWhile (\<lambda>c. c \<noteq> CHR ''.'') (fixed2 n) = ?w"
    unfolding fixed2_def using show_nat_no_point [of _ "nat (n div 100)"]
    by (subst takeWhile_append2) (simp_all del: show_nat.simps)
  have dr: "drop (length ?w + 1) (fixed2 n) = [digit_char ?a, digit_char ?b]"
    unfolding fixed2_def by (simp del: show_nat.simps)
  have "dec_value [digit_char ?a, digit_char ?b] = 10 * int ?a + int ?b"
    using dec_value_snoc [OF ab(2), of "[digit_char ?a]"] dec_value_single [OF ab(1)] by simp
  also have "\<dots> = 10 * (n mod 100 div 10) + n mod 100 mod 10"
    by (simp add: mod_mod_cancel)
  also have "\<dots> = n mod 100" by (rule mult_div_mod_eq)
  finally have f: "dec_value [digit_char ?a, digit_char ?b] = n mod 100" .
  have w: "dec_value ?w = n div 100" using assms by (simp add: dec_value_show_nat del: show_nat.simps)
  have "decimal_value (fixed2 n) = real_of_int (n div 100) + real_of_int (n mod 100) / 100"
    unfolding decimal_value_def Let_def tw dr f w by simp
  also have "\<dots> = real_of_int (100 * (n div 100) + n mod 100) / 100"
    by (simp only: of_int_add of_int_mult add_divide_distrib)
  also have "100 * (n div 100) + n mod 100 = n" by simp
  finally show ?thesis .
qed

lemma kd_ratio_of_near:
  assumes "0 \<le> k" "0 < d" "kd_ratio_of k d = Some s"
  shows "\<bar>decimal_value s - real_of_int k / real_of_int d\<bar>
         \<le> 1 / 200 + max (real_of_int k / real_of_int d / 2 ^ 53) (1 / 2 ^ 1075)"
proof -
  from kd_ratio_of_bound [OF assms] obtain n where n: "0 \<le> n" "s = fixed2 n"
    "\<bar>real_of_int n / 100 - real_of_int k / real_of_int d\<bar>
         \<le> 1 / 200 + max (real_of_int k / real_of_int d / 2 ^ 53) (1 / 2 ^ 1075)"
    by blast
  from n(2) decimal_value_fixed2 [OF n(1)] have "decimal_value s = real_of_int n / 100"
    by (simp only:)
  with n(3) show ?thesis by (simp only:)
qed

section \<open>Example documents\<close>

text \<open>What the function returns for six small documents, by evaluation.\<close>

lemma parse_pair_document:
  "parse_player_data example_config (text_soup ''50000/60000'') ''50000/60000'' ''bob'' =
     Some \<lparr>username = ''bob'', rank = ''First Sergeant'', experience = 50000,
       max_experience = Some 600, kills = 0, deaths = 0, kd_ratio = ''0.00'', gold_boxes = 0,
       premium = False, group_name = ''Unknown'', is_online = False, status_indicator = Red,
       turrets = [], hulls = []\<rparr>"
  by code_simp

lemma rank_loop_pair_document: "rank_loop rank_patterns ''50000/60000'' = None"
  by code_simp

lemma parse_kill_document:
  "parse_player_data example_config (text_soup ''Kill 7'') ''Kill 7'' ''bob'' =
     Some \<lparr>username = ''bob'', rank = ''Unknown'', experience = 0, max_experience = None,
       kills = 7, deaths = 0, kd_ratio = ''7'', gold_boxes = 0, premium = False,
       group_name = ''Unknown'', is_online = False, status_indicator = Red,
       turrets = [], hulls = []\<rparr>"
  by code_simp

lemma rank_loop_kill_document: "rank_loop rank_patterns ''Kill 7'' = None"
  by code_simp

lemma parse_counts_document:
  "parse_player_data example_config (text_soup ''kill1234death5678'') ''kill1234death5678'' ''bob'' =
     Some \<lparr>username = ''bob'', rank = ''Unknown'', experience = 0, max_experience = None,
       kills = 123, deaths = 567, kd_ratio = ''0.22'', gold_boxes = 0, premium = False,
       group_name = ''Unknown'', is_online = False, status_indicator = Red,
       turrets = [], hulls = []\<rparr>"
  by code_simp

lemma parse_turret_document:
  "parse_player_data example_config (text_soup ''9/8 Smoky'') ''9/8 Smoky'' ''bob'' =
     Some \<lparr>username = ''bob'', rank = ''Recruit'', experience = 9, max_experience = Some 8,
       kills = 0, deaths = 0, kd_ratio = ''0.00'', gold_boxes = 0, premium = False,
       group_name = ''Unknown'', is_online = False, status_indicator = Red,
       turrets = [''Smoky MSmoky''], hulls = []\<rparr>"
  by code_simp

lemma rank_loop_turret_document: "rank_loop rank_patterns ''9/8 Smoky'' = None"
  by code_simp

lemma parse_order_document:
  "parse_player_data example_config (text_soup ''500/400'') ''500/400'' ''bob'' =
     Some \<lparr>username = ''bob'', rank = ''Recruit'', experience = 500,
       max_experience = Some 400, kills = 0, deaths = 0, kd_ratio = ''0.00'', gold_boxes = 0,
       premium = False, group_name = ''Unknown'', is_online = False, status_indicator = Red,
       turrets = [], hulls = []\<rparr>"
  by code_simp

section \<open>The claims\<close>

text \<open>
  C1. A document that matches a placeholder signature is classified as not found, whatever
  else it contains: the default experience fraction \<^verbatim>\<open>14/400\<close>, zero kills and zero
  deaths with the ratio 0.00, the label \<^verbatim>\<open>Group: Unknown\<close>, or \<^verbatim>\<open>Recruit\<close>
  followed by the default fraction. The function then returns no record, for every
  configuration, parse tree and user name.
\<close>

theorem placeholder_not_found:
  assumes "contains ''14/400'' html \<or> matches DOTALL default_combat_stats html
     \<or> matches no_flags default_group html \<or> matches DOTALL default_recruit html"
  shows "parse_player_data cfg sp html u = None"
  using assms
  by (auto simp: parse_player_data_def default_data_indicators_def any_def matches_lit
      default_experience_def)

theorem placeholder_not_found_witness:
  "contains ''14/400'' ''14/400''
   \<and> parse_player_data example_config (text_soup ''14/400'') ''14/400'' ''bob'' = None"
proof -
  have h: "contains ''14/400'' ''14/400''" by simp
  from placeholder_not_found [of "''14/400''" example_config "text_soup ''14/400''" "''bob''"] h
  show ?thesis by blast
qed

text \<open>
  C2. The claim: a document in which no element suggests a profile container, an activity
  label or a combat statistics label is classified as not found before any field is read,
  even with positive data in it. The function builds the list of these four structure
  tests and never reads it. For the document \<^verbatim>\<open>Kill 7\<close> all four tests are false, and
  the function returns a record.
\<close>

theorem structure_check_not_applied:
  "\<not> any (profile_structure_indicators (text_soup ''Kill 7''))
   \<and> parse_player_data example_config (text_soup ''Kill 7'') ''Kill 7'' ''bob'' =
       Some \<lparr>username = ''bob'', rank = ''Unknown'', experience = 0, max_experience = None,
         kills = 7, deaths = 0, kd_ratio = ''7'', gold_boxes = 0, premium = False,
         group_name = ''Unknown'', is_online = False, status_indicator = Red,
         turrets = [], hulls = []\<rparr>"
proof -
  have "\<not> any (profile_structure_indicators (text_soup ''Kill 7''))" by code_simp
  with parse_kill_document show ?thesis by simp
qed

text \<open>
  C3. In every record the function returns, the ratio is computed from the kills and the
  deaths of the record and from nothing else: with no deaths and \<open>K > 0\<close> kills it is the
  decimal text of \<open>K\<close>; with no kills and no deaths it is \<^verbatim>\<open>0.00\<close>; otherwise it is the
  quotient kills / deaths (the nearest double) written with exactly two decimals: the
  number that is written differs from the quotient by at most half a hundredth and the
  rounding of the double. It is also what \<^verbatim>\<open>utils.calculate_kd_ratio\<close> returns for
  these kills and deaths.
\<close>

theorem kd_ratio_derived:
  assumes "parse_player_data cfg sp html u = Some r"
  shows "(deaths r = 0 \<and> 0 < kills r \<longrightarrow> kd_ratio r = py_str (kills r))
       \<and> (deaths r = 0 \<and> kills r = 0 \<longrightarrow> kd_ratio r = ''0.00'')
       \<and> (deaths r \<noteq> 0 \<longrightarrow>
            (\<exists>x. true_divide (kills r) (deaths r) = Some x \<and> kd_ratio r = format_2f x)
            \<and> two_decimals (kd_ratio r)
            \<and> \<bar>decimal_value (kd_ratio r) - real_of_int (kills r) / real_of_int (deaths r)\<bar>
                \<le> 1 / 200
                  + max (real_of_int (kills r) / real_of_int (deaths r) / 2 ^ 53) (1 / 2 ^ 1075))
       \<and> calculate_kd_ratio (kills r) (deaths r) = Some (kd_ratio r)"
proof -
  from parse_fields_record [OF parse_player_data_SomeD(1) [OF assms]]
  have kd: "kd_ratio_of (kills r) (deaths r) = Some (kd_ratio r)" by blast
  note nn = record_nonneg(3,4) [OF assms]
  have two: "two_decimals (kd_ratio r)" if "deaths r \<noteq> 0"
  proof -
    from kd that obtain x where x: "true_divide (kills r) (deaths r) = Some x"
      "kd_ratio r = format_2f x"
      by (auto simp: kd_ratio_of_def)
    from true_divide_sign [OF nn x(1)] obtain m e where "x = Float False m e" by blast
    with x(2) show ?thesis by (simp add: fixed2_two_decimals)
  qed
  have near: "\<bar>decimal_value (kd_ratio r) - real_of_int (kills r) / real_of_int (deaths r)\<bar>
      \<le> 1 / 200
        + max (real_of_int (kills r) / real_of_int (deaths r) / 2 ^ 53) (1 / 2 ^ 1075)"
    if "deaths r \<noteq> 0"
  proof -
    from that nn(2) have "0 < deaths r" by simp
    from kd_ratio_of_near [OF nn(1) this kd] show ?thesis .
  qed
  have div: "\<exists>x. true_divide (kills r) (deaths r) = Some x \<and> kd_ratio r = format_2f x"
    if "deaths r \<noteq> 0"
    using kd that by (auto simp: kd_ratio_of_def)
  have zero: "kd_ratio r = (if 0 < kills r then py_str (kills r) else ''0.00'')"
    if "deaths r = 0"
    using kd that by (simp add: kd_ratio_of_def)
  have calc: "calculate_kd_ratio (kills r) (deaths r) = Some (kd_ratio r)"
    using kd by (simp add: kd_ratio_of_def calculate_kd_ratio_def)
  from zero two near div calc show ?thesis by simp
qed

theorem kd_ratio_derived_witness:
  "parse_player_data example_config (text_soup ''kill1234death5678'') ''kill1234death5678'' ''bob'' =
     Some \<lparr>username = ''bob'', rank = ''Unknown'', experience = 0, max_experience = None,
       kills = 123, deaths = 567, kd_ratio = ''0.22'', gold_boxes = 0, premium = False,
       group_name = ''Unknown'', is_online = False, status_indicator = Red,
       turrets = [], hulls = []\<rparr>
   \<and> (\<exists>x. true_divide 123 567 = Some x \<and> ''0.22'' = format_2f x)
   \<and> two_decimals ''0.22''
   \<and> \<bar>decimal_value ''0.22'' - 123 / 567\<bar> \<le> 1 / 200 + max (123 / 567 / 2 ^ 53) (1 / 2 ^ 1075)
   \<and> calculate_kd_ratio 123 567 = Some ''0.22''"
  using kd_ratio_derived [OF parse_counts_document] parse_counts_document by simp

text \<open>
  C4. When no rank pattern matches the document and the experience \<open>e\<close> of the record has
  \<open>41000 \<le> e < 57000\<close>, the rank of the record is \<^verbatim>\<open>First Sergeant\<close>.
\<close>

theorem first_sergeant_band:
  assumes "parse_player_data cfg sp html u = Some r"
    and "rank_loop rank_patterns html = None"
    and "41000 \<le> experience r" and "experience r < 57000"
  shows "rank r = ''First Sergeant''"
proof -
  from parse_fields_record [OF parse_player_data_SomeD(1) [OF assms(1)]]
  have "rank r = (case rank_loop rank_patterns html of Some t \<Rightarrow> t
                  | None \<Rightarrow> if 0 < experience r then rank_by_experience (experience r) else ''Unknown'')"
    by blast
  with assms(2-4) show ?thesis by (simp add: rank_by_experience_def)
qed

theorem first_sergeant_band_witness:
  "parse_player_data example_config (text_soup ''50000/60000'') ''50000/60000'' ''bob'' =
     Some \<lparr>username = ''bob'', rank = ''First Sergeant'', experience = 50000,
       max_experience = Some 600, kills = 0, deaths = 0, kd_ratio = ''0.00'', gold_boxes = 0,
       premium = False, group_name = ''Unknown'', is_online = False, status_indicator = Red,
       turrets = [], hulls = []\<rparr>
   \<and> rank_loop rank_patterns ''50000/60000'' = None
   \<and> (41000 :: int) \<le> 50000 \<and> (50000 :: int) < 57000"
  using first_sergeant_band [OF parse_pair_document rank_loop_pair_document]
    parse_pair_document rank_loop_pair_document
  by simp

text \<open>
  C5. The rank that the experience gives is monotonic. For two records with experience
  \<open>0 < e1 < e2\<close>, from documents in which no rank pattern matches, the rank of the first
  is not above the rank of the second in the progression (the number \<open>emoji_index\<close> gives
  a rank, 1 for Recruit to 31 for Legend); and when the first is a Legend, both are, and
  the Legend level of the first is at most the level of the second.
\<close>

theorem rank_monotonic:
  assumes "parse_player_data cfg1 sp1 html1 u1 = Some r1"
    and "parse_player_data cfg2 sp2 html2 u2 = Some r2"
    and "rank_loop rank_patterns html1 = None" and "rank_loop rank_patterns html2 = None"
    and "0 < experience r1" and "experience r1 < experience r2"
  shows "emoji_index (rank r1) \<le> emoji_index (rank r2)
       \<and> (1800000 \<le> experience r1 \<longrightarrow>
            rank r1 = ''Legend '' @ py_str (legend_level (experience r1))
          \<and> rank r2 = ''Legend '' @ py_str (legend_level (experience r2))
          \<and> legend_level (experience r1) \<le> legend_level (experience r2))"
proof -
  from parse_fields_record [OF parse_player_data_SomeD(1) [OF assms(1)]] assms(3,5)
  have r1: "rank r1 = rank_by_experience (experience r1)" by auto
  from parse_fields_record [OF parse_player_data_SomeD(1) [OF assms(2)]] assms(4,5,6)
  have r2: "rank r2 = rank_by_experience (experience r2)" by auto
  from assms(6) have "tier (experience r1) \<le> tier (experience r2)"
    by (intro tier_mono) simp
  moreover have "legend_level (experience r1) \<le> legend_level (experience r2)"
    using assms(6) by (simp add: legend_level_def zdiv_mono1)
  ultimately show ?thesis
    using r1 r2 assms(6) by (simp add: tier_def rank_by_experience_def)
qed

theorem rank_monotonic_witness:
  "parse_player_data example_config (text_soup ''9/8 Smoky'') ''9/8 Smoky'' ''bob'' =
     Some \<lparr>username = ''bob'', rank = ''Recruit'', experience = 9, max_experience = Some 8,
       kills = 0, deaths = 0, kd_ratio = ''0.00'', gold_boxes = 0, premium = False,
       group_name = ''Unknown'', is_online = False, status_indicator = Red,
       turrets = [''Smoky MSmoky''], hulls = []\<rparr>
   \<and> parse_player_data example_config (text_soup ''50000/60000'') ''50000/60000'' ''bob'' =
     Some \<lparr>username = ''bob'', rank = ''First Sergeant'', experience = 50000,
       max_experience = Some 600, kills = 0, deaths = 0, kd_ratio = ''0.00'', gold_boxes = 0,
       premium = False, group_name = ''Unknown'', is_online = False, status_indicator = Red,
       turrets = [], hulls = []\<rparr>
   \<and> rank_loop rank_patterns ''9/8 Smoky'' = None
   \<and> rank_loop rank_patterns ''50000/60000'' = None
   \<and> (0 :: int) < 9 \<and> (9 :: int) < 50000
   \<and> emoji_index ''Recruit'' \<le> emoji_index ''First Sergeant''"
  using rank_monotonic [OF parse_turret_document parse_pair_document
      rank_loop_turret_document rank_loop_pair_document]
    parse_turret_document parse_pair_document rank_loop_turret_document rank_loop_pair_document
  by simp

text \<open>
  C6. The claim: when no rank pattern matches and the experience is zero, the rank of the
  record is \<^verbatim>\<open>Recruit\<close>. The record starts with the rank \<^verbatim>\<open>Unknown\<close>, and the rank
  is set from the experience only when the experience is positive: the document
  \<^verbatim>\<open>Kill 7\<close> has no rank word and no experience, and its record has the rank
  \<^verbatim>\<open>Unknown\<close>.
\<close>

theorem no_rank_zero_experience_counterexample:
  "rank_loop rank_patterns ''Kill 7'' = None
   \<and> parse_player_data example_config (text_soup ''Kill 7'') ''Kill 7'' ''bob'' =
       Some \<lparr>username = ''bob'', rank = ''Unknown'', experience = 0, max_experience = None,
         kills = 7, deaths = 0, kd_ratio = ''7'', gold_boxes = 0, premium = False,
         group_name = ''Unknown'', is_online = False, status_indicator = Red,
         turrets = [], hulls = []\<rparr>
   \<and> ''Unknown'' \<noteq> ''Recruit''"
  using rank_loop_kill_document parse_kill_document by simp

text \<open>
  C6, as amended. When no rank pattern matches and the experience of the record is zero,
  the rank of the record is \<^verbatim>\<open>Unknown\<close>.
\<close>

theorem no_rank_zero_experience_unknown:
  assumes "parse_player_data cfg sp html u = Some r"
    and "rank_loop rank_patterns html = None"
    and "experience r = 0"
  shows "rank r = ''Unknown''"
proof -
  from parse_fields_record [OF parse_player_data_SomeD(1) [OF assms(1)]]
  have "rank r = (case rank_loop rank_patterns html of Some t \<Rightarrow> t
                  | None \<Rightarrow> if 0 < experience r then rank_by_experience (experience r) else ''Unknown'')"
    by blast
  with assms(2-3) show ?thesis by simp
qed

theorem no_rank_zero_experience_unknown_witness:
  "parse_player_data example_config (text_soup ''Kill 7'') ''Kill 7'' ''bob'' =
     Some \<lparr>username = ''bob'', rank = ''Unknown'', experience = 0, max_experience = None,
       kills = 7, deaths = 0, kd_ratio = ''7'', gold_boxes = 0, premium = False,
       group_name = ''Unknown'', is_online = False, status_indicator = Red,
       turrets = [], hulls = []\<rparr>
   \<and> rank_loop rank_patterns ''Kill 7'' = None"
  using no_rank_zero_experience_unknown [OF parse_kill_document rank_loop_kill_document]
    parse_kill_document rank_loop_kill_document
  by simp

text \<open>
  C7. The claim: when a record has both \<^verbatim>\<open>experience\<close> and \<^verbatim>\<open>max_experience\<close>, both
  are non-negative and the first is at most the second. The function stores the two numbers
  it reads, as they are written, and compares them nowhere: for the document
  \<^verbatim>\<open>500/400\<close> it reads 500 before the slash and 400 after it, so the record has the
  experience 500 and the maximum 400.
\<close>

theorem experience_pair_order_counterexample:
  "parse_player_data example_config (text_soup ''500/400'') ''500/400'' ''bob'' =
     Some \<lparr>username = ''bob'', rank = ''Recruit'', experience = 500,
       max_experience = Some 400, kills = 0, deaths = 0, kd_ratio = ''0.00'', gold_boxes = 0,
       premium = False, group_name = ''Unknown'', is_online = False, status_indicator = Red,
       turrets = [], hulls = []\<rparr>
   \<and> \<not> (500 :: int) \<le> 400"
  using parse_order_document by simp

text \<open>
  C7, as amended. When a record has both \<^verbatim>\<open>experience\<close> and \<^verbatim>\<open>max_experience\<close>, both
  are non-negative integers.
\<close>

theorem experience_pair_nonneg:
  assumes "parse_player_data cfg sp html u = Some r"
    and "max_experience r = Some mx"
  shows "0 \<le> experience r \<and> 0 \<le> mx"
  using record_nonneg(1) [OF assms(1)] record_nonneg(2) [OF assms(1) assms(2)] by simp

theorem experience_pair_nonneg_witness:
  "parse_player_data example_config (text_soup ''500/400'') ''500/400'' ''bob'' =
     Some \<lparr>username = ''bob'', rank = ''Recruit'', experience = 500,
       max_experience = Some 400, kills = 0, deaths = 0, kd_ratio = ''0.00'', gold_boxes = 0,
       premium = False, group_name = ''Unknown'', is_online = False, status_indicator = Red,
       turrets = [], hulls = []\<rparr>
   \<and> (0 :: int) \<le> 500 \<and> (0 :: int) \<le> 400"
  using experience_pair_nonneg [OF parse_order_document, of 400] parse_order_document by simp

text \<open>
  C8. The claim: when only the bare form of an equipment name matches, the entry of the
  list is the plain name. For the name \<^verbatim>\<open>Smoky\<close> and the document \<^verbatim>\<open>9/8 Smoky\<close> the
  two forms with digits find nothing and the bare form finds the text \<^verbatim>\<open>Smoky\<close>; that
  text is not empty, so the branch that appends the plain name is not taken, and the entry is
  \<^verbatim>\<open>Smoky MSmoky\<close>.
\<close>

theorem bare_name_entry:
  "equipment_findall ''Smoky'' ''9/8 Smoky'' = [[], [], [''Smoky'']]
   \<and> found_entry ''Smoky'' ''Smoky'' = [''Smoky MSmoky'']
   \<and> map_option turrets
        (parse_player_data example_config (text_soup ''9/8 Smoky'') ''9/8 Smoky'' ''bob'') =
       Some [''Smoky MSmoky'']"
proof -
  have "equipment_findall ''Smoky'' ''9/8 Smoky'' = [[], [], [''Smoky'']]" by code_simp
  moreover have "found_entry ''Smoky'' ''Smoky'' = [''Smoky MSmoky'']" by code_simp
  ultimately show ?thesis using parse_turret_document by simp
qed

text \<open>
  C9. The rank symbols. The 31 rank names of the progression get the numbers 1 (Recruit) to
  31 (Legend) in their order, so no two get the same number; every name
  \<^verbatim>\<open>Legend N\<close> gets 31; and a name that is no name of the progression, compared as the
  function compares names (in lower case, with underscores for spaces), gets 31.
\<close>

theorem emoji_index_progression:
  "map emoji_index rank_progression = [1..<32]
   \<and> distinct (map emoji_index rank_progression)
   \<and> emoji_index (''Legend '' @ n) = 31
   \<and> (normal_name rank_name \<notin> set (map normal_name rank_progression) \<longrightarrow>
        emoji_index rank_name = 31)"
proof -
  have upt: "[1..<32] = [1, 2, 3, 4, 5, 6, 7, 8, 9, 10, 11, 12, 13, 14, 15, 16, 17, 18, 19, 20, 21,
      22, 23, 24, 25, 26, 27, 28, 29, 30, 31 :: nat]"
    by code_simp
  have names: "map normal_name rank_progression = map fst (butlast rank_mapping)"
    by code_simp
  have other: "emoji_index rank_name = 31"
    if "normal_name rank_name \<notin> set (map normal_name rank_progression)"
    using that unfolding names emoji_index_def by (simp add: rank_mapping_def)
  have all: "map emoji_index rank_progression = [1..<32]"
    unfolding upt by (rule emoji_index_names)
  have "distinct (map emoji_index rank_progression)"
    unfolding all by simp
  with all other emoji_index_Legend [of n] show ?thesis by blast
qed

theorem emoji_index_progression_witness:
  "map emoji_index rank_progression = [1..<32]
   \<and> distinct (map emoji_index rank_progression)
   \<and> emoji_index (''Legend '' @ ''7'') = 31
   \<and> normal_name ''Unknown'' \<notin> set (map normal_name rank_progression)
   \<and> emoji_index ''Unknown'' = 31"
proof -
  have h: "normal_name ''Unknown'' \<notin> set (map normal_name rank_progression)" by code_simp
  from emoji_index_progression [of "''7''" "''Unknown''"] h show ?thesis by blast
qed

text \<open>
  C10. The kills and the deaths of a record are cut to three digits. When the first
  occurrence of the kills label in the document (the label with the colons and white space
  after it) is followed by four digits or more, the kills of the record are the number that
  the first three of these digits write; and the same for the deaths label and the deaths.
\<close>

theorem count_truncated:
  assumes "parse_player_data cfg sp html u = Some r"
  shows "(after_label kill_label html = Some (d1 # d2 # d3 # d4 # rest)
            \<and> is_decimal d1 \<and> is_decimal d2 \<and> is_decimal d3 \<and> is_decimal d4
          \<longrightarrow> kills r = 100 * digit_val d1 + 10 * digit_val d2 + digit_val d3)
       \<and> (after_label death_label html = Some (e1 # e2 # e3 # e4 # rest')
            \<and> is_decimal e1 \<and> is_decimal e2 \<and> is_decimal e3 \<and> is_decimal e4
          \<longrightarrow> deaths r = 100 * digit_val e1 + 10 * digit_val e2 + digit_val e3)"
proof -
  from parse_fields_record [OF parse_player_data_SomeD(1) [OF assms]]
  have k: "number_loop strip_separators kill_patterns html 0 = Some (kills r)"
    and d: "number_loop strip_separators death_patterns html 0 = Some (deaths r)"
    by blast+
  show ?thesis
    using k d first_count_truncated [of kill_label html d1 d2 d3 d4 rest]
      first_count_truncated [of death_label html e1 e2 e3 e4 rest']
    by (auto simp: kill_patterns_def death_patterns_def)
qed

theorem count_truncated_witness:
  "parse_player_data example_config (text_soup ''kill1234death5678'') ''kill1234death5678'' ''bob'' =
     Some \<lparr>username = ''bob'', rank = ''Unknown'', experience = 0, max_experience = None,
       kills = 123, deaths = 567, kd_ratio = ''0.22'', gold_boxes = 0, premium = False,
       group_name = ''Unknown'', is_online = False, status_indicator = Red,
       turrets = [], hulls = []\<rparr>
   \<and> after_label kill_label ''kill1234death5678'' = Some ''1234death5678''
   \<and> after_label death_label ''kill1234death5678'' = Some ''5678''
   \<and> list_all is_decimal ''12345678''
   \<and> (123 :: int) = 100 * digit_val CHR ''1'' + 10 * digit_val CHR ''2'' + digit_val CHR ''3''
   \<and> (567 :: int) = 100 * digit_val CHR ''5'' + 10 * digit_val CHR ''6'' + digit_val CHR ''7''"
proof -
  have k: "after_label kill_label ''kill1234death5678'' = Some ''1234death5678''" by code_simp
  have d: "after_label death_label ''kill1234death5678'' = Some ''5678''" by code_simp
  have g: "list_all is_decimal ''12345678''" by code_simp
  from count_truncated [OF parse_counts_document, of "CHR ''1''" "CHR ''2''" "CHR ''3''" "CHR ''4''"
      "''death5678''" "CHR ''5''" "CHR ''6''" "CHR ''7''" "CHR ''8''" "[]"] k d g
  show ?thesis using parse_counts_document by simp
qed

end
